theory Spec2Isabelle
  imports Complex_Main
begin

section \<open>Errors and Python/numpy list primitives\<close>

text \<open>
  The exceptions the modelled code can raise. Every raise, failed assertion and
  out-of-range access of the source is a branch returning \<open>Inl\<close>.
\<close>

datatype error =
  AssertionError | ZeroDivisionError | ValueError | IndexError | NotImplementedError

definition bind_result :: "error + 'a \<Rightarrow> ('a \<Rightarrow> error + 'b) \<Rightarrow> error + 'b" where
  "bind_result r f = (case r of Inl e \<Rightarrow> Inl e | Inr v \<Rightarrow> f v)"

text \<open>
  The extended slice \<open>xs[i::k]\<close>: walk the list with a countdown \<open>c\<close> to the next
  element kept; after keeping one, the countdown restarts at \<open>k - 1\<close>.
\<close>

fun stride_aux :: "nat \<Rightarrow> nat \<Rightarrow> 'a list \<Rightarrow> 'a list" where
  "stride_aux k c [] = []"
| "stride_aux k c (x # xs) =
     (if c = 0 then x # stride_aux k (k - 1) xs else stride_aux k (c - 1) xs)"

definition slice_from :: "nat \<Rightarrow> nat \<Rightarrow> 'a list \<Rightarrow> 'a list" where
  "slice_from i k xs = stride_aux k i xs"

text \<open>
  \<open>np.array(xs).reshape(-1, b)\<close>: row-major rows of width \<open>b\<close>; numpy raises
  ValueError when the size is not a multiple of \<open>b\<close> (an empty array reshapes to
  zero rows).
\<close>

fun chunks :: "nat \<Rightarrow> nat \<Rightarrow> 'a list \<Rightarrow> 'a list list" where
  "chunks b 0 xs = []"
| "chunks b (Suc r) xs = take b xs # chunks b r (drop b xs)"

definition reshape_rows :: "nat \<Rightarrow> 'a list \<Rightarrow> error + 'a list list" where
  "reshape_rows b xs =
     (if b = 0 \<or> length xs mod b \<noteq> 0 then Inl ValueError
      else Inr (chunks b (length xs div b) xs))"

fun collect :: "(error + 'a) list \<Rightarrow> error + 'a list" where
  "collect [] = Inr []"
| "collect (r # rs) =
     bind_result r (\<lambda>v. bind_result (collect rs) (\<lambda>vs. Inr (v # vs)))"

text \<open>
  \<open>table[indices]\<close> with a list of row numbers: numpy raises IndexError on a row
  number outside the table.
\<close>

definition gather_rows :: "'a list \<Rightarrow> nat list \<Rightarrow> error + 'a list" where
  "gather_rows table idx =
     (if \<forall>i \<in> set idx. i < length table then Inr (map (\<lambda>i. table ! i) idx)
      else Inl IndexError)"

section \<open>CustomDistributedSampler\<close>

record sampler =
  batch_size :: nat
  num_heads :: nat
  num_replicas :: nat
  rank :: nat
  shuffle :: bool
  seed :: int
  epoch :: int
  indices_batched :: "nat list list"
  num_samples :: nat
  total_size :: nat

text \<open>
  \<open>__init__\<close> (lines 39-59). \<open>n\<close> is \<open>len(dataset)\<close>; batch size, head count, replica
  count and rank are counts. The base-class constructor of the framework runs first
  and is outside the repository; it leaves \<open>epoch = 0\<close>. \<open>math.ceil(R / nr)\<close> is the
  ceiling of the quotient, written with integer arithmetic (the float quotient is exact
  enough for this below \<open>2 ^ 53\<close> rows).
\<close>

definition sampler_init ::
  "nat \<Rightarrow> nat \<Rightarrow> nat \<Rightarrow> nat \<Rightarrow> nat \<Rightarrow> bool \<Rightarrow> int \<Rightarrow> error + sampler" where
  "sampler_init n b h nr rk shuf sd =
     (if h = 0 then Inl ZeroDivisionError
      else if n mod h \<noteq> 0 then Inl AssertionError
      else if b = 0 then Inl ZeroDivisionError
      else
        let indices = [0..<n];
            drop_count = (n div h) mod b;
            indices' = (if drop_count \<noteq> 0
                        then take (length indices - drop_count * h) indices
                        else indices)
        in bind_result
             (collect (map (\<lambda>i. reshape_rows b (slice_from i h indices')) [0..<h]))
             (\<lambda>blocks.
                let table = concat blocks in
                if nr = 0 then Inl ZeroDivisionError
                else
                  let ns = ((length table + nr - 1) div nr) * b in
                  Inr \<lparr> batch_size = b, num_heads = h, num_replicas = nr, rank = rk,
                        shuffle = shuf, seed = sd, epoch = 0,
                        indices_batched = table,
                        num_samples = ns, total_size = ns * nr \<rparr>))"

definition set_epoch :: "int \<Rightarrow> sampler \<Rightarrow> sampler" where
  "set_epoch e s = s\<lparr>epoch := e\<rparr>"

text \<open>
  \<open>__iter__\<close> (lines 62-87). \<open>randperm g n\<close> stands for
  \<open>torch.randperm(n, generator=g)\<close> with \<open>g\<close> seeded by \<open>seed + epoch\<close>; the generator
  belongs to the framework and is a parameter here.
\<close>

definition pad_indices :: "nat \<Rightarrow> 'a list \<Rightarrow> 'a list" where
  "pad_indices nr idx =
     (if length idx mod nr \<noteq> 0
      then idx @ take (nr - length idx mod nr) idx
      else idx)"

definition row_order :: "(int \<Rightarrow> nat \<Rightarrow> nat list) \<Rightarrow> sampler \<Rightarrow> nat list" where
  "row_order randperm s =
     (if shuffle s then randperm (seed s + epoch s) (length (indices_batched s))
      else [0..<length (indices_batched s)])"

definition sampler_iter :: "(int \<Rightarrow> nat \<Rightarrow> nat list) \<Rightarrow> sampler \<Rightarrow> error + nat list" where
  "sampler_iter randperm s =
     (if num_replicas s = 0 then Inl ZeroDivisionError
      else
        let indices = pad_indices (num_replicas s) (row_order randperm s) in
        if length indices * batch_size s \<noteq> total_size s then Inl AssertionError
        else
          bind_result
            (gather_rows (indices_batched s)
               (slice_from (rank s) (num_replicas s) indices))
            (\<lambda>rows.
               let flat = concat rows in
               if length flat \<noteq> num_samples s then Inl AssertionError
               else Inr flat))"

text \<open>
  What the framework documents of \<open>randperm\<close>: a permutation of \<open>0 .. n-1\<close>, that
  is, a list of length \<open>n\<close> in which every number below \<open>n\<close> occurs. The
  rotation below is one such generator, used to run the sampler on concrete inputs.
\<close>

definition is_randperm :: "(int \<Rightarrow> nat \<Rightarrow> nat list) \<Rightarrow> bool" where
  "is_randperm rp = (\<forall>g n. length (rp g n) = n \<and> set (rp g n) = {0..<n})"

definition rot_perm :: "int \<Rightarrow> nat \<Rightarrow> nat list" where
  "rot_perm g n = rotate (nat (g mod int (max n 1))) [0..<n]"

text \<open>
  The scenario of the specification: a table of 3 rows, batch size 3, 2 replicas
  (9 samples, one head); here for rank 1 with shuffling on.
\<close>

definition scenario_sampler :: sampler where
  "scenario_sampler =
     \<lparr> batch_size = 3, num_heads = 1, num_replicas = 2, rank = 1,
           shuffle = True, seed = 0, epoch = 0,
           indices_batched = [[0, 1, 2], [3, 4, 5], [6, 7, 8]],
           num_samples = 6, total_size = 12 \<rparr>"

subsection \<open>The partitioned index table in the specification's words\<close>

text \<open>
  Head \<open>i\<close> owns the strided indices \<open>i, i + h, i + 2h, ...\<close>; its block has
  \<open>K = (n div h) div b\<close> rows of width \<open>b\<close>, and the blocks are stacked in ascending
  head order. This table is compared with the one \<open>sampler_init\<close> computes.
\<close>

definition head_block :: "nat \<Rightarrow> nat \<Rightarrow> nat \<Rightarrow> nat \<Rightarrow> nat list list" where
  "head_block h b K i = map (\<lambda>r. map (\<lambda>c. i + (r * b + c) * h) [0..<b]) [0..<K]"

definition table_spec :: "nat \<Rightarrow> nat \<Rightarrow> nat \<Rightarrow> nat list list" where
  "table_spec n b h = concat (map (head_block h b ((n div h) div b)) [0..<h])"

section \<open>Streaming aggregator\<close>

text \<open>
  Python list indexing \<open>xs[i]\<close> and item assignment \<open>xs[i] = v\<close> with an integer
  index: a negative index counts from the end, an index outside the list raises
  IndexError. \<open>np_take\<close> is numpy's \<open>arr[inds]\<close> with an integer index array, which
  checks every entry in the same way.
\<close>

definition list_get :: "'a list \<Rightarrow> int \<Rightarrow> error + 'a" where
  "list_get xs i =
     (if 0 \<le> i \<and> i < int (length xs) then Inr (xs ! nat i)
      else if i < 0 \<and> - int (length xs) \<le> i then Inr (xs ! nat (i + int (length xs)))
      else Inl IndexError)"

definition list_set :: "'a list \<Rightarrow> int \<Rightarrow> 'a \<Rightarrow> error + 'a list" where
  "list_set xs i v =
     (if 0 \<le> i \<and> i < int (length xs) then Inr (xs[nat i := v])
      else if i < 0 \<and> - int (length xs) \<le> i then Inr (xs[nat (i + int (length xs)) := v])
      else Inl IndexError)"

definition np_take :: "'a list \<Rightarrow> int list \<Rightarrow> error + 'a list" where
  "np_take xs inds = collect (map (list_get xs) inds)"

text \<open>
  The spatial sampler as \<open>update_tests\<close> reads it: the split name, the current cloud
  id (an index into the dataset) and one possibility array per cloud.
\<close>

record spatial_sampler =
  split :: string
  cloud_id :: nat
  possibilities :: "real list list"

text \<open>
  What \<open>update_tests\<close> uses of the model: \<open>cfg.num_classes\<close>, the fusion rule
  \<open>update_probs\<close>, and \<open>proj_inds m c sp\<close> for
  \<open>model.preprocess(dataset_split.get_data(c), {'split': sp}).get('proj_inds', None)\<close>.
  All three are outside this file and are parameters.
\<close>

record ('i, 'r) seg_model =
  num_classes :: nat
  update_probs :: "'i \<Rightarrow> 'r \<Rightarrow> real list list \<Rightarrow> int list \<Rightarrow> real list list \<times> int list"
  proj_inds :: "int \<Rightarrow> string \<Rightarrow> int list option"

text \<open>The pipeline fields that \<open>update_tests\<close> reads and writes.\<close>

record aggregator =
  curr_cloud_id :: int
  pbar_update :: nat
  test_probs :: "real list list list"
  test_labels :: "int list list"
  ori_test_probs :: "real list list list"
  ori_test_labels :: "int list list"
  complete_infer :: bool

text \<open>Lines 342-346 (and 221-225): the reset before a test or inference pass.\<close>

definition reset_tests :: "aggregator \<Rightarrow> aggregator" where
  "reset_tests st =
     st\<lparr>curr_cloud_id := - 1, test_probs := [], test_labels := [],
        ori_test_probs := [], ori_test_labels := []\<rparr>"

text \<open>Lines 392-404: a new cloud id allocates zeroed buffers at the end of the lists.\<close>

definition start_cloud :: "('i, 'r) seg_model \<Rightarrow> spatial_sampler \<Rightarrow> aggregator \<Rightarrow> error + aggregator" where
  "start_cloud m smp st =
     (if curr_cloud_id st \<noteq> int (cloud_id smp) then
        bind_result (list_get (possibilities smp) (int (cloud_id smp)))
          (\<lambda>p. Inr (st\<lparr>curr_cloud_id := int (cloud_id smp),
                         pbar_update := 0,
                         test_probs := test_probs st @ [replicate (length p) (replicate (num_classes m) 0)],
                         test_labels := test_labels st @ [replicate (length p) 0],
                         complete_infer := False\<rparr>))
      else Inr st)"

text \<open>
  Lines 417-432: the completion actions. The buffers are read again from the lists at
  the current cloud id, as the source does.
\<close>

definition complete_cloud :: "('i, 'r) seg_model \<Rightarrow> spatial_sampler \<Rightarrow> aggregator \<Rightarrow> error + aggregator" where
  "complete_cloud m smp st =
     (let found = proj_inds m (curr_cloud_id st) (split smp) in
      bind_result (list_get (test_probs st) (curr_cloud_id st)) (\<lambda>probs.
        let inds = (case found of None \<Rightarrow> map int [0..<length probs] | Some given \<Rightarrow> given) in
        bind_result (np_take probs inds) (\<lambda>ori_probs.
        bind_result (list_get (test_labels st) (curr_cloud_id st)) (\<lambda>labels.
        bind_result (np_take labels inds) (\<lambda>ori_labels.
          Inr (st\<lparr>ori_test_probs := ori_test_probs st @ [ori_probs],
                  ori_test_labels := ori_test_labels st @ [ori_labels],
                  complete_infer := True\<rparr>))))))"

text \<open>
  \<open>this_possiblility[this_possiblility > end_threshold].shape[0]\<close>: the number of
  points whose coverage weight strictly exceeds the threshold.
\<close>

definition end_threshold :: real where
  "end_threshold = 0.5"

definition covered_count :: "real list \<Rightarrow> nat" where
  "covered_count p = length (filter (\<lambda>x. x > end_threshold) p)"

text \<open>\<open>update_tests\<close> (lines 388-432); the progress bar itself is display only.\<close>

definition update_tests ::
  "('i, 'r) seg_model \<Rightarrow> spatial_sampler \<Rightarrow> 'i \<Rightarrow> 'r \<Rightarrow> aggregator \<Rightarrow> error + aggregator" where
  "update_tests m smp inputs results st =
     bind_result (start_cloud m smp st) (\<lambda>st1.
     bind_result (list_get (possibilities smp) (int (cloud_id smp))) (\<lambda>this_possibility.
       let covered = covered_count this_possibility;
           st2 = st1\<lparr>pbar_update := covered\<rparr>
       in
       bind_result (list_get (test_probs st2) (curr_cloud_id st2)) (\<lambda>old_probs.
       bind_result (list_get (test_labels st2) (curr_cloud_id st2)) (\<lambda>old_labels.
         let new = update_probs m inputs results old_probs old_labels in
         bind_result (list_set (test_probs st2) (curr_cloud_id st2) (fst new)) (\<lambda>tp.
         bind_result (list_set (test_labels st2) (curr_cloud_id st2) (snd new)) (\<lambda>tl.
           let st3 = st2\<lparr>test_probs := tp, test_labels := tl\<rparr> in
           if split smp = ''test'' \<and> covered = length this_possibility
           then complete_cloud m smp st3
           else Inr st3))))))"

section \<open>Fixtures for running the aggregator on concrete inputs\<close>

text \<open>
  A toy fusion rule that replaces the running buffers by the batch's outputs, no
  \<open>proj_inds\<close> from preprocessing (or, for \<open>demo_model_proj\<close>, a projection onto four
  original points), one cloud of three points, and the pipeline state right after the
  reset of lines 342-346.
\<close>

definition demo_model :: "(int list, real list list) seg_model" where
  "demo_model =
     \<lparr> num_classes = 2,
       update_probs = (\<lambda>inputs results probs labels. (results, inputs)),
       proj_inds = (\<lambda>c sp. None) \<rparr>"

definition demo_model_proj :: "(int list, real list list) seg_model" where
  "demo_model_proj = demo_model\<lparr>proj_inds := (\<lambda>c sp. Some [2, 0, 1, 1])\<rparr>"

definition demo_spatial :: spatial_sampler where
  "demo_spatial = \<lparr> split = ''test'', cloud_id = 0, possibilities = [[0.7, 0.9, 0.6]] \<rparr>"

definition fresh_aggregator :: aggregator where
  "fresh_aggregator =
     \<lparr> curr_cloud_id = - 1, pbar_update = 0, test_probs = [], test_labels = [],
       ori_test_probs = [], ori_test_labels = [], complete_infer = False \<rparr>"

section \<open>Inference\<close>

text \<open>
  Control flow of a function body: a statement either returns from the function
  (with the state left behind), falls through to the next statement, or raises.
\<close>

datatype ('r, 's) flow = Return 'r 's | Next 's | Raise error

definition seq :: "('r, 's) flow \<Rightarrow> ('s \<Rightarrow> ('r, 's) flow) \<Rightarrow> ('r, 's) flow" where
  "seq f g = (case f of Return r s \<Rightarrow> Return r s | Raise e \<Rightarrow> Raise e | Next s \<Rightarrow> g s)"

fun for_each :: "('s \<Rightarrow> 'b \<Rightarrow> ('r, 's) flow) \<Rightarrow> 's \<Rightarrow> 'b list \<Rightarrow> ('r, 's) flow" where
  "for_each body st [] = Next st"
| "for_each body st (x # xs) = seq (body st x) (\<lambda>st'. for_each body st' xs)"

definition lift_result :: "error + 's \<Rightarrow> ('r, 's) flow" where
  "lift_result r = (case r of Inl e \<Rightarrow> Raise e | Inr s \<Rightarrow> Next s)"

text \<open>What \<open>run_inference\<close> can hand back: the raw model output, or the finalized
  \<open>{predict_labels, predict_scores}\<close> pair.\<close>

datatype 'r inference_value = Raw 'r | Finalized "int list" "real list list"

text \<open>
  \<open>run_inference\<close> (lines 221-252). \<open>forward\<close> is \<open>model(inputs['data'])\<close>, \<open>observe\<close> is
  the call \<open>self.update_tests(infer_sampler, inputs, results)\<close>, and \<open>batches\<close> is what
  the loader over the one-sample inference split yields. Metric logging after the loop
  is display only.
\<close>

definition infer_body ::
  "('b \<Rightarrow> 'r) \<Rightarrow> ('b \<Rightarrow> 'r \<Rightarrow> aggregator \<Rightarrow> error + aggregator) \<Rightarrow>
   aggregator \<Rightarrow> 'b \<Rightarrow> ('r inference_value, aggregator) flow" where
  "infer_body forward observe st inputs =
     (let results = forward inputs in
      seq (Return (Raw results) st)
          (\<lambda>st'. lift_result (observe inputs results st')))"

definition finalize_inference :: "aggregator \<Rightarrow> ('r inference_value, aggregator) flow" where
  "finalize_inference st =
     (if ori_test_labels st = [] then Raise IndexError
      else if ori_test_probs st = [] then Raise IndexError
      else Return (Finalized (last (ori_test_labels st)) (last (ori_test_probs st)))
             (st\<lparr>ori_test_labels := butlast (ori_test_labels st),
                 ori_test_probs := butlast (ori_test_probs st)\<rparr>))"

definition run_inference ::
  "('b \<Rightarrow> 'r) \<Rightarrow> ('b \<Rightarrow> 'r \<Rightarrow> aggregator \<Rightarrow> error + aggregator) \<Rightarrow>
   aggregator \<Rightarrow> 'b list \<Rightarrow> ('r inference_value, aggregator) flow" where
  "run_inference forward observe st batches =
     seq (for_each (infer_body forward observe) (reset_tests st) batches)
         finalize_inference"

section \<open>Training and validation loops\<close>

text \<open>
  What one iteration does, in order, as a trace of the calls it makes on the
  optimizer, the model and the metrics.
\<close>

datatype action =
  ZeroGrad | Forward | GetLoss | Backward | ClipGrad | OptimizerStep
  | MetricUpdate int | LossAppend int | Summary3D | Barrier

text \<open>
  The collaborators of the loop, all outside this file: \<open>head_of b\<close> is
  \<open>inputs['data'].dataset_idx\<close>; \<open>get_loss w b\<close> gives \<open>loss.cpu().item()\<close> and
  \<open>predict_scores.size()\<close> for the forward pass of batch \<open>b\<close> under weights \<open>w\<close>;
  \<open>optimizer_step w b clip\<close> gives the weights after the backward pass, the optional
  gradient clipping and the optimizer step.
\<close>

record ('w, 'b) train_ops =
  head_of :: "'b \<Rightarrow> int"
  get_loss :: "'w \<Rightarrow> 'b \<Rightarrow> real \<times> nat list"
  optimizer_step :: "'w \<Rightarrow> 'b \<Rightarrow> bool \<Rightarrow> 'w"

record train_cfg =
  grad_clip_norm :: real
  distributed :: bool
  record_train :: bool
  record_valid :: bool

text \<open>
  The loop's state: the model weights, the trace, the per-head loss lists and the
  per-head metrics (a metric is represented by the batches it was updated with), and
  the progress bar's counter.
\<close>

record ('w, 'b) train_state =
  weights :: 'w
  trace :: "action list"
  losses :: "real list list"
  valid_losses :: "real list list"
  metric_train :: "'b list list"
  metric_val :: "'b list list"
  progress_n :: nat

text \<open>
  One training iteration (lines 575-614). \<open>size()[-1]\<close> of a zero-dimensional tensor
  raises IndexError; a last dimension of size zero takes the \<open>continue\<close>.
\<close>

definition train_batch ::
  "('w, 'b) train_ops \<Rightarrow> train_cfg \<Rightarrow> ('w, 'b) train_state \<Rightarrow> 'b \<Rightarrow> error + ('w, 'b) train_state" where
  "train_batch ops cfg st inputs =
     (let dataset_idx = head_of ops inputs;
          st1 = st\<lparr>trace := trace st @ [ZeroGrad, Forward, GetLoss]\<rparr>;
          loss = fst (get_loss ops (weights st) inputs);
          size = snd (get_loss ops (weights st) inputs)
      in if size = [] then Inl IndexError
         else if last size = 0 then Inr st1
         else
           let clip = (grad_clip_norm cfg > 0);
               st2 = st1\<lparr>weights := optimizer_step ops (weights st) inputs clip,
                         trace := trace st1 @ [Backward] @ (if clip then [ClipGrad] else [])
                                    @ [OptimizerStep]\<rparr>
           in
           bind_result (list_get (metric_train st2) dataset_idx) (\<lambda>metric.
           bind_result (list_set (metric_train st2) dataset_idx (metric @ [inputs])) (\<lambda>metrics.
           bind_result (list_get (losses st2) dataset_idx) (\<lambda>head_losses.
           bind_result (list_set (losses st2) dataset_idx (head_losses @ [loss])) (\<lambda>all_losses.
             Inr (st2\<lparr>metric_train := metrics, losses := all_losses,
                      trace := trace st2 @ [MetricUpdate dataset_idx, LossAppend dataset_idx]
                                 @ (if record_train cfg \<and> progress_n st = 0 then [Summary3D] else [])
                                 @ (if distributed cfg then [Barrier] else [])\<rparr>))))))"

text \<open>The loop over the training loader; the progress bar counts every batch it hands out.\<close>

fun train_loop ::
  "('w, 'b) train_ops \<Rightarrow> train_cfg \<Rightarrow> ('w, 'b) train_state \<Rightarrow> 'b list \<Rightarrow> error + ('w, 'b) train_state" where
  "train_loop ops cfg st [] = Inr st"
| "train_loop ops cfg st (inputs # rest) =
     bind_result (train_batch ops cfg st inputs)
       (\<lambda>st'. train_loop ops cfg (st'\<lparr>progress_n := Suc (progress_n st')\<rparr>) rest)"

text \<open>One validation iteration (lines 625-644), at position \<open>step\<close> of the loader.\<close>

definition valid_batch ::
  "('w, 'b) train_ops \<Rightarrow> train_cfg \<Rightarrow> nat \<Rightarrow> ('w, 'b) train_state \<Rightarrow> 'b \<Rightarrow> error + ('w, 'b) train_state" where
  "valid_batch ops cfg step st inputs =
     (let dataset_idx = head_of ops inputs;
          st1 = st\<lparr>trace := trace st @ [Forward, GetLoss]\<rparr>;
          loss = fst (get_loss ops (weights st) inputs);
          size = snd (get_loss ops (weights st) inputs)
      in if size = [] then Inl IndexError
         else if last size = 0 then Inr st1
         else
           bind_result (list_get (metric_val st1) dataset_idx) (\<lambda>metric.
           bind_result (list_set (metric_val st1) dataset_idx (metric @ [inputs])) (\<lambda>metrics.
           bind_result (list_get (valid_losses st1) dataset_idx) (\<lambda>head_losses.
           bind_result (list_set (valid_losses st1) dataset_idx (head_losses @ [loss])) (\<lambda>all_losses.
             Inr (st1\<lparr>metric_val := metrics, valid_losses := all_losses,
                      trace := trace st1 @ [MetricUpdate dataset_idx, LossAppend dataset_idx]
                                 @ (if record_valid cfg \<and> step = 0 then [Summary3D] else [])\<rparr>))))))"

fun valid_loop ::
  "('w, 'b) train_ops \<Rightarrow> train_cfg \<Rightarrow> nat \<Rightarrow> ('w, 'b) train_state \<Rightarrow> 'b list \<Rightarrow> error + ('w, 'b) train_state" where
  "valid_loop ops cfg step st [] = Inr st"
| "valid_loop ops cfg step st (inputs # rest) =
     bind_result (valid_batch ops cfg step st inputs)
       (\<lambda>st'. valid_loop ops cfg (Suc step) st' rest)"

section \<open>Setup of a training run\<close>





section \<open>Fixtures for running the training loop on concrete inputs\<close>

text \<open>
  A batch is represented by the number of classes its head scores, so that batch \<open>0\<close>
  is the degenerate one; every batch belongs to head 0, the loss is 1, and an optimizer
  step increments a counter standing for the weights.
\<close>

definition demo_ops :: "(nat, nat) train_ops" where
  "demo_ops =
     \<lparr> head_of = (\<lambda>b. 0),
       get_loss = (\<lambda>w b. (1, [8, b])),
       optimizer_step = (\<lambda>w b clip. Suc w) \<rparr>"

definition demo_cfg :: train_cfg where
  "demo_cfg =
     \<lparr> grad_clip_norm = - 1, distributed = False, record_train = False, record_valid = False \<rparr>"

definition demo_train_state :: "(nat, nat) train_state" where
  "demo_train_state =
     \<lparr> weights = 0, trace = [], losses = [[]], valid_losses = [[]],
       metric_train = [[]], metric_val = [[]], progress_n = 0 \<rparr>"


section \<open>Facts about the list primitives\<close>

lemma stride_aux_length:
  "0 < k \<Longrightarrow> length (stride_aux k c xs) = (length xs + (k - 1) - c) div k"
proof (induction xs arbitrary: c)
  case Nil
  then show ?case by simp
next
  case (Cons x xs)
  show ?case
  proof (cases "c = 0")
    case True
    have "length (stride_aux k c (x # xs)) = Suc (length (stride_aux k (k - 1) xs))"
      using True by simp
    also have "\<dots> = Suc (length xs div k)"
      using Cons.IH[OF Cons.prems, of "k - 1"] by simp
    also have "\<dots> = (length xs + k) div k"
      using Cons.prems by (simp only: div_add_self2 Suc_eq_plus1)
    also have "length xs + k = length (x # xs) + (k - 1) - c"
      using True Cons.prems by simp
    finally show ?thesis .
  next
    case False
    have "length (stride_aux k c (x # xs)) = length (stride_aux k (c - 1) xs)"
      using False by simp
    also have "\<dots> = (length xs + (k - 1) - (c - 1)) div k"
      using Cons.IH[OF Cons.prems, of "c - 1"] .
    also have "length xs + (k - 1) - (c - 1) = length (x # xs) + (k - 1) - c"
      using False by simp
    finally show ?thesis .
  qed
qed

lemma stride_aux_nth:
  "0 < k \<Longrightarrow> j < length (stride_aux k c xs) \<Longrightarrow> stride_aux k c xs ! j = xs ! (c + j * k)"
proof (induction xs arbitrary: c j)
  case Nil
  then show ?case by simp
next
  case (Cons x xs)
  show ?case
  proof (cases "c = 0")
    case True
    show ?thesis
    proof (cases j)
      case 0
      then show ?thesis using True by simp
    next
      case (Suc j')
      then have "j' < length (stride_aux k (k - 1) xs)" using Cons.prems True by simp
      from Cons.IH[OF Cons.prems(1) this]
      have "stride_aux k (k - 1) xs ! j' = xs ! (k - 1 + j' * k)" .
      moreover have "(x # xs) ! (c + j * k) = xs ! (k - 1 + j' * k)"
        using Cons.prems(1) True Suc by (simp add: nth_Cons')
      moreover have "stride_aux k c (x # xs) ! j = stride_aux k (k - 1) xs ! j'"
        using True Suc by simp
      ultimately show ?thesis by (simp only:)
    qed
  next
    case False
    then have "j < length (stride_aux k (c - 1) xs)" using Cons.prems by simp
    from Cons.IH[OF Cons.prems(1) this]
    have "stride_aux k (c - 1) xs ! j = xs ! (c - 1 + j * k)" .
    moreover have "(x # xs) ! (c + j * k) = xs ! (c - 1 + j * k)"
      using False by (simp add: nth_Cons')
    moreover have "stride_aux k c (x # xs) = stride_aux k (c - 1) xs"
      using False by simp
    ultimately show ?thesis by (simp only:)
  qed
qed

lemma chunks_length: "length (chunks b r xs) = r"
  by (induction r arbitrary: xs) simp_all

lemma chunks_nth: "i < r \<Longrightarrow> chunks b r xs ! i = take b (drop (i * b) xs)"
proof (induction r arbitrary: xs i)
  case 0
  then show ?case by simp
next
  case (Suc r)
  show ?case
  proof (cases i)
    case 0
    then show ?thesis by simp
  next
    case (Suc i')
    then have "i' < r" using Suc.prems by simp
    then have "chunks b r (drop b xs) ! i' = take b (drop (i' * b) (drop b xs))"
      by (rule Suc.IH)
    also have "drop (i' * b) (drop b xs) = drop (Suc i' * b) xs"
      by (simp only: drop_drop mult_Suc add.commute)
    finally show ?thesis using Suc by simp
  qed
qed

lemma slice_from_length:
  "0 < k \<Longrightarrow> length (slice_from i k xs) = (length xs + (k - 1) - i) div k"
  by (simp add: slice_from_def stride_aux_length)

lemma slice_from_nth:
  "0 < k \<Longrightarrow> j < length (slice_from i k xs) \<Longrightarrow> slice_from i k xs ! j = xs ! (i + j * k)"
  by (simp add: slice_from_def stride_aux_nth)

lemma stride_count: 
  assumes "i < (h::nat)"
  shows "(h * q + (h - 1) - i) div h = q"
proof -
  have "h * q + (h - 1) - i = (h - 1 - i) + q * h" using assms by (simp add: mult.commute)
  moreover have "h - 1 - i < h" using assms by simp
  ultimately show ?thesis by simp
qed

lemma slice_from_upt:
  assumes "i < h"
  shows "slice_from i h [0..<h * q] = map (\<lambda>j. i + j * h) [0..<q]"
proof (rule nth_equalityI)
  have h: "0 < h" using assms by simp
  show len: "length (slice_from i h [0..<h * q]) = length (map (\<lambda>j. i + j * h) [0..<q])"
    using slice_from_length[OF h, of i "[0..<h * q]"] stride_count[OF assms, of q] by simp
  fix j assume "j < length (slice_from i h [0..<h * q])"
  then have jq: "j < q" and jl: "j < length (slice_from i h [0..<h * q])" using len by simp_all
  have "i + j * h < h + j * h" using assms by simp
  also have "\<dots> = Suc j * h" by simp
  also have "\<dots> \<le> q * h" using jq by (simp only: mult_le_mono1 Suc_leI)
  finally have "i + j * h < h * q" by (simp add: mult.commute)
  then have "[0..<h * q] ! (i + j * h) = i + j * h" by simp
  then show "slice_from i h [0..<h * q] ! j = map (\<lambda>j. i + j * h) [0..<q] ! j"
    using slice_from_nth[OF h jl] jq by simp
qed

lemma chunks_map_upt:
  "chunks b K (map f [0..<b * K]) = map (\<lambda>r. map (\<lambda>c. f (r * b + c)) [0..<b]) [0..<K]"
proof (rule nth_equalityI)
  show "length (chunks b K (map f [0..<b * K])) = length (map (\<lambda>r. map (\<lambda>c. f (r * b + c)) [0..<b]) [0..<K])"
    by (simp add: chunks_length)
  fix r assume "r < length (chunks b K (map f [0..<b * K]))"
  then have rK: "r < K" by (simp add: chunks_length)
  have "Suc r * b \<le> K * b" using rK by (simp only: mult_le_mono1 Suc_leI)
  then have le: "r * b + b \<le> b * K" by (simp add: mult.commute)
  have "take b (drop (r * b) [0..<b * K]) = [r * b..<r * b + b]"
    using le by simp
  also have "\<dots> = map (\<lambda>c. r * b + c) [0..<b]"
    by (simp add: map_add_upt add.commute[of "r * b"])
  finally have "take b (drop (r * b) (map f [0..<b * K])) = map (\<lambda>c. f (r * b + c)) [0..<b]"
    by (simp add: take_map drop_map)
  then show "chunks b K (map f [0..<b * K]) ! r = map (\<lambda>r. map (\<lambda>c. f (r * b + c)) [0..<b]) [0..<K] ! r"
    using rK by (simp add: chunks_nth)
qed

lemma reshape_rows_map_upt:
  "0 < b \<Longrightarrow> reshape_rows b (map f [0..<b * K]) =
     Inr (map (\<lambda>r. map (\<lambda>c. f (r * b + c)) [0..<b]) [0..<K])"
  by (simp add: reshape_rows_def chunks_map_upt)

lemma collect_all_ok: "collect (map (\<lambda>i. Inr (f i)) js) = Inr (map f js)"
  by (induction js) (simp_all add: bind_result_def)

lemma kept_indices:
  assumes "0 < h" "n mod h = 0" "0 < b"
  shows "(if (n div h) mod b \<noteq> 0 then take (length [0..<n] - (n div h) mod b * h) [0..<n] else [0..<n])
         = [0..<h * (b * ((n div h) div b))]"
proof -
  let ?q = "n div h"
  have n: "n = h * ?q" using assms(2) by (metis mult_div_mod_eq add.right_neutral)
  have q: "?q = b * (?q div b) + ?q mod b" by simp
  have "h * (b * (?q div b)) + ?q mod b * h = h * ?q"
    by (metis q distrib_left mult.commute)
  then have eq: "n - ?q mod b * h = h * (b * (?q div b))" using n by simp
  show ?thesis
  proof (cases "?q mod b = 0")
    case True
    then show ?thesis using eq by simp
  next
    case False
    have "take (n - ?q mod b * h) [0..<n] = [0..<n - ?q mod b * h]" by simp
    then show ?thesis using False eq by simp
  qed
qed

lemma sampler_init_ok:
  assumes "0 < h" "n mod h = 0" "0 < b" "0 < nr"
  shows "sampler_init n b h nr rk shuf sd =
     Inr \<lparr> batch_size = b, num_heads = h, num_replicas = nr, rank = rk,
           shuffle = shuf, seed = sd, epoch = 0,
           indices_batched = table_spec n b h,
           num_samples = ((length (table_spec n b h) + nr - 1) div nr) * b,
           total_size = ((length (table_spec n b h) + nr - 1) div nr) * b * nr \<rparr>"
proof -
  let ?K = "(n div h) div b"
  let ?kept = "[0..<h * (b * ?K)]"
  have blocks: "map (\<lambda>i. reshape_rows b (slice_from i h ?kept)) [0..<h]
        = map (\<lambda>i. Inr (head_block h b ?K i)) [0..<h]"
  proof (rule map_cong[OF refl])
    fix i assume "i \<in> set [0..<h]"
    then have ih: "i < h" by simp
    have "slice_from i h ?kept = map (\<lambda>j. i + j * h) [0..<b * ?K]"
      by (rule slice_from_upt[OF ih])
    then show "reshape_rows b (slice_from i h ?kept) = Inr (head_block h b ?K i)"
      using reshape_rows_map_upt[OF assms(3), of "\<lambda>j. i + j * h" ?K]
      by (simp add: head_block_def)
  qed
  have coll: "collect (map (\<lambda>i. reshape_rows b (slice_from i h ?kept)) [0..<h])
        = Inr (map (head_block h b ?K) [0..<h])"
    unfolding blocks by (rule collect_all_ok)
  show ?thesis
    using assms(1,2,3,4) kept_indices[OF assms(1,2,3)] coll
    by (simp add: sampler_init_def Let_def bind_result_def table_spec_def)
qed

lemma concat_uniform_length:
  "\<forall>x \<in> set xss. length x = K \<Longrightarrow> length (concat xss) = length xss * K"
  by (induction xss) simp_all

lemma concat_uniform_nth:
  "\<forall>x \<in> set xss. length x = K \<Longrightarrow> i < length xss \<Longrightarrow> r < K \<Longrightarrow>
     concat xss ! (i * K + r) = xss ! i ! r"
proof (induction xss arbitrary: i)
  case Nil
  then show ?case by simp
next
  case (Cons xs xss)
  show ?case
  proof (cases i)
    case 0
    then show ?thesis using Cons.prems by (simp add: nth_append)
  next
    case (Suc i')
    have "length xs = K" using Cons.prems(1) by simp
    moreover have "Suc i' * K + r = K + (i' * K + r)" by simp
    moreover have "concat xss ! (i' * K + r) = xss ! i' ! r"
      using Cons.prems Suc by (intro Cons.IH) simp_all
    moreover have "(xs @ concat xss) ! (length xs + (i' * K + r)) = concat xss ! (i' * K + r)"
      by (rule nth_append_length_plus)
    ultimately show ?thesis using Suc by (simp add: add.assoc)
  qed
qed

lemma concat_uniform_block:
  "\<forall>x \<in> set xss. length x = K \<Longrightarrow> i < length xss \<Longrightarrow>
     take K (drop (i * K) (concat xss)) = xss ! i"
proof (induction xss arbitrary: i)
  case Nil
  then show ?case by simp
next
  case (Cons xs xss)
  show ?case
  proof (cases i)
    case 0
    then show ?thesis using Cons.prems by simp
  next
    case (Suc i')
    have len: "length xs = K" using Cons.prems(1) by simp
    have "drop (Suc i' * K) (xs @ concat xss) = drop (i' * K) (concat xss)"
      using len by simp
    moreover have "take K (drop (i' * K) (concat xss)) = xss ! i'"
      using Cons.prems Suc by (intro Cons.IH) simp_all
    ultimately show ?thesis using Suc by (simp only: concat.simps nth_Cons_Suc)
  qed
qed

lemma head_block_length: "length (head_block h b K i) = K"
  by (simp add: head_block_def)

lemma head_block_nth:
  "r < K \<Longrightarrow> head_block h b K i ! r = map (\<lambda>c. i + (r * b + c) * h) [0..<b]"
  by (simp add: head_block_def)

lemma table_spec_length: "length (table_spec n b h) = h * (n div h div b)"
proof -
  have "\<forall>x \<in> set (map (head_block h b (n div h div b)) [0..<h]). length x = n div h div b"
    by (simp add: head_block_length)
  from concat_uniform_length[OF this] show ?thesis
    by (simp add: table_spec_def)
qed

lemma table_spec_nth:
  assumes "i < h" "r < n div h div b"
  shows "table_spec n b h ! (i * (n div h div b) + r) = map (\<lambda>c. i + (r * b + c) * h) [0..<b]"
proof -
  let ?K = "n div h div b"
  let ?xss = "map (head_block h b ?K) [0..<h]"
  have u: "\<forall>x \<in> set ?xss. length x = ?K" by (simp add: head_block_length)
  have il: "i < length ?xss" using assms(1) by simp
  have "concat ?xss ! (i * ?K + r) = ?xss ! i ! r"
    by (rule concat_uniform_nth[OF u il assms(2)])
  also have "\<dots> = head_block h b ?K i ! r" using assms(1) by simp
  finally show ?thesis using assms(2) by (simp add: table_spec_def head_block_nth)
qed

lemma table_spec_row_width:
  assumes "row \<in> set (table_spec n b h)"
  shows "length row = b"
proof -
  from assms obtain i where "i < h" "row \<in> set (head_block h b (n div h div b) i)"
    by (auto simp: table_spec_def)
  then show ?thesis by (auto simp: head_block_def)
qed

lemma concat_rows_upt:
  "concat (map (\<lambda>r. map (\<lambda>c. f (r * b + c)) [0..<b]) [0..<K]) = map f [0..<b * K]"
proof (induction K)
  case 0
  then show ?case by simp
next
  case (Suc K)
  have shift: "map (\<lambda>c. c + b * K) [0..<b] = [b * K..<b + b * K]"
    by (rule map_add_upt)
  have "map (\<lambda>c. f (K * b + c)) [0..<b] = map (f \<circ> (\<lambda>c. c + b * K)) [0..<b]"
    by (rule map_cong[OF refl]) (simp add: add.commute mult.commute)
  also have "\<dots> = map f (map (\<lambda>c. c + b * K) [0..<b])"
    by (simp only: map_map)
  also have "\<dots> = map f [b * K..<b + b * K]"
    by (simp only: shift)
  finally have last: "map (\<lambda>c. f (K * b + c)) [0..<b] = map f [b * K..<b + b * K]" .
  have split: "[0..<b * Suc K] = [0..<b * K] @ [b * K..<b + b * K]"
  proof -
    have "[0..<b * K + b] = [0..<b * K] @ [b * K..<b * K + b]"
      by (rule upt_add_eq_append) simp
    then show ?thesis by (simp only: mult_Suc_right add.commute)
  qed
  have "concat (map (\<lambda>r. map (\<lambda>c. f (r * b + c)) [0..<b]) [0..<Suc K])
        = concat (map (\<lambda>r. map (\<lambda>c. f (r * b + c)) [0..<b]) [0..<K]) @ map (\<lambda>c. f (K * b + c)) [0..<b]"
    by simp
  also have "\<dots> = map f [0..<b * K] @ map f [b * K..<b + b * K]"
    by (simp only: Suc.IH last)
  also have "\<dots> = map f [0..<b * Suc K]"
    by (simp only: split map_append)
  finally show ?case .
qed

lemma table_spec_block:
  assumes "i < h"
  shows "concat (take (n div h div b) (drop (i * (n div h div b)) (table_spec n b h)))
         = map (\<lambda>j. i + j * h) [0..<b * (n div h div b)]"
proof -
  let ?K = "n div h div b"
  let ?xss = "map (head_block h b ?K) [0..<h]"
  have u: "\<forall>x \<in> set ?xss. length x = ?K" by (simp add: head_block_length)
  have il: "i < length ?xss" using assms(1) by simp
  have "take ?K (drop (i * ?K) (concat ?xss)) = ?xss ! i"
    by (rule concat_uniform_block[OF u il])
  also have "\<dots> = head_block h b ?K i" using assms by simp
  finally have "take ?K (drop (i * ?K) (table_spec n b h)) = head_block h b ?K i"
    by (simp add: table_spec_def)
  then show ?thesis
    using concat_rows_upt[of "\<lambda>j. i + j * h" b ?K] by (simp add: head_block_def)
qed

lemma head_strided_list:
  assumes "i < h" "n mod h = 0"
  shows "slice_from i h [0..<n] = map (\<lambda>j. i + j * h) [0..<n div h]"
proof -
  have "n = h * (n div h)" using assms(2) by (metis mult_div_mod_eq add.right_neutral)
  then show ?thesis using slice_from_upt[OF assms(1), of "n div h"] by simp
qed

lemma kept_per_head: "(q::nat) - q mod b = b * (q div b)"
  by (metis add_diff_cancel_right' mult_div_mod_eq)

lemma table_spec_head:
  assumes "\<rho> < h * (n div h div b)" "x \<in> set (table_spec n b h ! \<rho>)" 
  shows "x mod h = \<rho> div (n div h div b)"
proof -
  let ?K = "n div h div b"
  have K: "0 < ?K" using assms(1) by (cases "?K = 0") simp_all
  let ?i = "\<rho> div ?K" and ?r = "\<rho> mod ?K"
  have ih: "?i < h" using assms(1) K by (simp add: less_mult_imp_div_less mult.commute)
  have rK: "?r < ?K" using K by simp
  have "table_spec n b h ! (?i * ?K + ?r) = map (\<lambda>c. ?i + (?r * b + c) * h) [0..<b]"
    by (rule table_spec_nth[OF ih rK])
  then have "table_spec n b h ! \<rho> = map (\<lambda>c. ?i + (?r * b + c) * h) [0..<b]"
    by (simp only: div_mult_mod_eq)
  with assms(2) obtain c where "x = ?i + (?r * b + c) * h" by auto
  then show ?thesis using ih by simp
qed

lemma sampler_init_guards:
  assumes "sampler_init n b h nr rk shuf sd = Inr s"
  shows "0 < h \<and> n mod h = 0 \<and> 0 < b \<and> 0 < nr"
proof -
  have h: "h \<noteq> 0" using assms by (cases "h = 0") (simp_all add: sampler_init_def)
  have m: "n mod h = 0" using assms h by (cases "n mod h = 0") (simp_all add: sampler_init_def)
  have b: "b \<noteq> 0" using assms h m by (cases "b = 0") (simp_all add: sampler_init_def)
  have "nr \<noteq> 0"
  proof
    assume "nr = 0"
    then have "sampler_init n b h nr rk shuf sd \<noteq> Inr s"
      using h m b by (simp add: sampler_init_def Let_def bind_result_def split: sum.splits)
    then show False using assms by simp
  qed
  then show ?thesis using h m b by simp
qed

lemma sampler_init_fields:
  assumes "sampler_init n b h nr rk shuf sd = Inr s"
  shows "batch_size s = b" "num_replicas s = nr" "rank s = rk" "shuffle s = shuf"
    "seed s = sd" "indices_batched s = table_spec n b h"
    "num_samples s = ((length (table_spec n b h) + nr - 1) div nr) * b"
    "total_size s = num_samples s * nr"
proof -
  from sampler_init_guards[OF assms]
  have g: "0 < h" "n mod h = 0" "0 < b" "0 < nr" by simp_all
  from sampler_init_ok[OF g, of rk shuf sd] assms
  have "s = \<lparr> batch_size = b, num_heads = h, num_replicas = nr, rank = rk,
           shuffle = shuf, seed = sd, epoch = 0,
           indices_batched = table_spec n b h,
           num_samples = ((length (table_spec n b h) + nr - 1) div nr) * b,
           total_size = ((length (table_spec n b h) + nr - 1) div nr) * b * nr \<rparr>"
    by simp
  then show "batch_size s = b" "num_replicas s = nr" "rank s = rk" "shuffle s = shuf"
    "seed s = sd" "indices_batched s = table_spec n b h"
    "num_samples s = ((length (table_spec n b h) + nr - 1) div nr) * b"
    "total_size s = num_samples s * nr"
    by simp_all
qed

lemma div_small_plus: "a < (nr::nat) \<Longrightarrow> (a + q * nr) div nr = q"
  by simp

lemma ceil_div_exact:
  assumes "0 < (nr::nat)" "R mod nr = 0"
  shows "(R + nr - 1) div nr = R div nr"
proof -
  have "R = (R div nr) * nr" using assms(2) by (simp add: mod_eq_0_iff_dvd)
  then obtain q where q: "R = q * nr" ..
  have eq: "q * nr + nr - 1 = (nr - 1) + q * nr" using assms(1) by (cases nr) simp_all
  have "(q * nr + nr - 1) div nr = q"
    unfolding eq using assms(1) by (intro div_small_plus) simp
  moreover have "q * nr div nr = q" using assms(1) by simp
  ultimately show ?thesis unfolding q by (simp only:)
qed

lemma ceil_div_inexact:
  assumes "0 < (nr::nat)" "R mod nr \<noteq> 0"
  shows "(R + nr - 1) div nr = Suc (R div nr)"
proof -
  let ?q = "R div nr" and ?m = "R mod nr"
  have m: "0 < ?m" "?m < nr" using assms by simp_all
  have "R + nr - 1 = (?m + ?q * nr) + nr - 1" by simp
  also have "\<dots> = (?m - 1) + Suc ?q * nr" using m(1) by (cases ?m) simp_all
  finally have eq: "R + nr - 1 = (?m - 1) + Suc ?q * nr" .
  show ?thesis unfolding eq using m(2) by (intro div_small_plus) simp
qed

lemma stride_aux_subset: "set (stride_aux k c xs) \<subseteq> set xs"
  by (induction xs arbitrary: c) auto

lemma slice_from_subset: "set (slice_from i k xs) \<subseteq> set xs"
  by (simp add: slice_from_def stride_aux_subset)

lemma pad_indices_subset: "set (pad_indices nr idx) \<subseteq> set idx"
  using set_take_subset[of "nr - length idx mod nr" idx] by (auto simp: pad_indices_def)

lemma pad_indices_length:
  "length (pad_indices nr idx) =
     (if length idx mod nr = 0 then length idx
      else length idx + min (length idx) (nr - length idx mod nr))"
  by (simp add: pad_indices_def)

lemma randperm_length: "is_randperm rp \<Longrightarrow> length (rp g n) = n"
  by (simp add: is_randperm_def)

lemma randperm_range: "is_randperm rp \<Longrightarrow> x \<in> set (rp g n) \<Longrightarrow> x < n"
  by (simp add: is_randperm_def)

lemma rot_perm_is_randperm: "is_randperm rot_perm"
  by (simp add: is_randperm_def rot_perm_def)

lemma row_order_length:
  "is_randperm rp \<Longrightarrow> length (row_order rp s) = length (indices_batched s)"
  by (simp add: row_order_def randperm_length)

lemma row_order_range:
  "is_randperm rp \<Longrightarrow> x \<in> set (row_order rp s) \<Longrightarrow> x < length (indices_batched s)"
  by (auto simp: row_order_def randperm_range split: if_splits)

lemma gather_rows_ok:
  "\<forall>i \<in> set idx. i < length table \<Longrightarrow> gather_rows table idx = Inr (map (\<lambda>i. table ! i) idx)"
  by (simp add: gather_rows_def)

lemma padded_length_fit:
  assumes nr: "0 < nr"
    and fit: "R mod nr = 0 \<or> nr - R mod nr \<le> R"
    and len: "length idx = R"
  shows "length (pad_indices nr idx) = nr * ((R + nr - 1) div nr)"
proof (cases "R mod nr = 0")
  case True
  then have "length (pad_indices nr idx) = R" using len by (simp add: pad_indices_length)
  moreover have "nr * (R div nr) = R" using True by (simp add: mod_eq_0_iff_dvd)
  ultimately show ?thesis using ceil_div_exact[OF nr True] by simp
next
  case False
  then have le: "nr - R mod nr \<le> R" using fit by simp
  have m: "R mod nr < nr" using nr by simp
  have "length (pad_indices nr idx) = R + (nr - R mod nr)"
    using False len le by (simp add: pad_indices_length min_def)
  also have "R + (nr - R mod nr) = (R div nr * nr + R mod nr) + (nr - R mod nr)" by simp
  also have "\<dots> = nr * Suc (R div nr)"
  proof -
    have "\<And>q r. r < nr \<Longrightarrow> (q * nr + r) + (nr - r) = nr * Suc q"
      by (simp add: mult.commute)
    from this[OF m] show ?thesis .
  qed
  finally show ?thesis using ceil_div_inexact[OF nr False] by simp
qed

lemma sampler_iter_ok:
  assumes nr: "0 < num_replicas s" and rk: "rank s < num_replicas s"
    and w: "\<forall>row \<in> set (indices_batched s). length row = batch_size s"
    and ns: "num_samples s =
       ((length (indices_batched s) + num_replicas s - 1) div num_replicas s) * batch_size s"
    and ts: "total_size s = num_samples s * num_replicas s"
    and rp: "is_randperm rp"
    and fit: "length (indices_batched s) mod num_replicas s = 0 \<or>
       num_replicas s - length (indices_batched s) mod num_replicas s \<le> length (indices_batched s)"
  shows "sampler_iter rp s =
       Inr (concat (map (\<lambda>i. indices_batched s ! i)
         (slice_from (rank s) (num_replicas s) (pad_indices (num_replicas s) (row_order rp s)))))"
    and "length (concat (map (\<lambda>i. indices_batched s ! i)
         (slice_from (rank s) (num_replicas s) (pad_indices (num_replicas s) (row_order rp s)))))
       = num_samples s"
proof -
  let ?R = "length (indices_batched s)" and ?nr = "num_replicas s" and ?b = "batch_size s"
  let ?C = "(?R + ?nr - 1) div ?nr"
  let ?padded = "pad_indices ?nr (row_order rp s)"
  let ?sel = "slice_from (rank s) ?nr ?padded"
  let ?flat = "concat (map (\<lambda>i. indices_batched s ! i) ?sel)"
  have plen: "length ?padded = ?nr * ?C"
    by (rule padded_length_fit[OF nr fit row_order_length[OF rp]])
  have a1: "length ?padded * ?b = total_size s"
    unfolding plen ts ns by (simp add: mult.commute mult.left_commute)
  have sel_len: "length ?sel = ?C"
    unfolding slice_from_length[OF nr] plen by (rule stride_count[OF rk])
  have sel_range: "\<forall>i \<in> set ?sel. i < ?R"
    using slice_from_subset[of "rank s" ?nr ?padded] pad_indices_subset[of ?nr "row_order rp s"]
      row_order_range[OF rp, of _ s] by blast
  have g: "gather_rows (indices_batched s) ?sel = Inr (map (\<lambda>i. indices_batched s ! i) ?sel)"
    by (rule gather_rows_ok[OF sel_range])
  have "\<forall>x \<in> set (map (\<lambda>i. indices_batched s ! i) ?sel). length x = ?b"
    using sel_range w by simp
  from concat_uniform_length[OF this]
  show flat_len: "length ?flat = num_samples s" unfolding ns by (simp add: sel_len)
  show "sampler_iter rp s = Inr ?flat"
    using nr a1 g flat_len by (simp add: sampler_iter_def Let_def bind_result_def)
qed

lemma sampler_iter_fail:
  assumes nr: "0 < num_replicas s" and b: "0 < batch_size s"
    and ns: "num_samples s =
       ((length (indices_batched s) + num_replicas s - 1) div num_replicas s) * batch_size s"
    and ts: "total_size s = num_samples s * num_replicas s"
    and rp: "is_randperm rp"
    and m: "length (indices_batched s) mod num_replicas s \<noteq> 0"
    and short: "length (indices_batched s) <
       num_replicas s - length (indices_batched s) mod num_replicas s"
  shows "sampler_iter rp s = Inl AssertionError"
proof -
  let ?R = "length (indices_batched s)" and ?nr = "num_replicas s" and ?b = "batch_size s"
  let ?padded = "pad_indices ?nr (row_order rp s)"
  have Rnr: "?R < ?nr" using short by simp
  then have mod: "?R mod ?nr = ?R" and dv: "?R div ?nr = 0" by simp_all
  have two: "?R + ?R < ?nr" using short mod by simp
  have le: "?R \<le> ?nr - ?R mod ?nr" by (rule less_imp_le[OF short])
  have "length ?padded = ?R + ?R"
    using m le row_order_length[OF rp, of s] by (simp only: pad_indices_length min_def if_False if_True)
  moreover have "total_size s = ?b * ?nr"
    unfolding ts ns ceil_div_inexact[OF nr m] dv by simp
  moreover have "(?R + ?R) * ?b < ?b * ?nr" using two b by (simp add: mult.commute)
  ultimately have "length ?padded * ?b \<noteq> total_size s" by simp
  then show ?thesis using nr by (simp add: sampler_iter_def Let_def)
qed

lemma set_epoch_fields:
  "batch_size (set_epoch e s) = batch_size s"
  "num_replicas (set_epoch e s) = num_replicas s"
  "rank (set_epoch e s) = rank s"
  "indices_batched (set_epoch e s) = indices_batched s"
  "num_samples (set_epoch e s) = num_samples s"
  "total_size (set_epoch e s) = total_size s"
  "shuffle (set_epoch e s) = shuffle s"
  "seed (set_epoch e s) = seed s"
  "epoch (set_epoch e s) = e"
  by (simp_all add: set_epoch_def)

lemma sampler_init_wf:
  assumes init: "sampler_init n b h nr rk shuf sd = Inr s"
  shows "0 < num_replicas (set_epoch e s)"
    and "0 < batch_size (set_epoch e s)"
    and "\<forall>row \<in> set (indices_batched (set_epoch e s)). length row = batch_size (set_epoch e s)"
    and "num_samples (set_epoch e s) =
       ((length (indices_batched (set_epoch e s)) + num_replicas (set_epoch e s) - 1)
          div num_replicas (set_epoch e s)) * batch_size (set_epoch e s)"
    and "total_size (set_epoch e s) = num_samples (set_epoch e s) * num_replicas (set_epoch e s)"
proof -
  note f = sampler_init_fields[OF init] and g = sampler_init_guards[OF init]
  show "0 < num_replicas (set_epoch e s)" using g by (simp add: set_epoch_fields f)
  show "0 < batch_size (set_epoch e s)" using g by (simp add: set_epoch_fields f)
  show "\<forall>row \<in> set (indices_batched (set_epoch e s)). length row = batch_size (set_epoch e s)"
    by (simp add: set_epoch_fields f table_spec_row_width)
  show "num_samples (set_epoch e s) =
       ((length (indices_batched (set_epoch e s)) + num_replicas (set_epoch e s) - 1)
          div num_replicas (set_epoch e s)) * batch_size (set_epoch e s)"
    by (simp add: set_epoch_fields f)
  show "total_size (set_epoch e s) = num_samples (set_epoch e s) * num_replicas (set_epoch e s)"
    by (simp add: set_epoch_fields f)
qed

lemma scenario_init: "sampler_init 9 3 1 2 1 True 0 = Inr scenario_sampler"
  by code_simp

lemma scenario_iter:
  "sampler_iter rot_perm (set_epoch 4 scenario_sampler) = Inr [6, 7, 8, 3, 4, 5]"
  by code_simp

text \<open>
  The row order of an epoch depends on the sampler only through \<open>shuffle\<close>,
  \<open>seed + epoch\<close> and the number of table rows; the rank plays no part, so all
  replicas of one run compute the same order from the same generator.
\<close>

lemma row_order_replica_independent:
  assumes "shuffle s1 = shuffle s2" "seed s1 = seed s2"
    and "length (indices_batched s1) = length (indices_batched s2)"
  shows "row_order rp (set_epoch e s1) = row_order rp (set_epoch e s2)"
  using assms by (simp add: row_order_def set_epoch_def)

section \<open>The partitioned index table\<close>

lemma sampler_init_example:
  "sampler_init 14 3 2 2 0 False 0 =
     Inr \<lparr> batch_size = 3, num_heads = 2, num_replicas = 2, rank = 0,
           shuffle = False, seed = 0, epoch = 0,
           indices_batched = [[0, 2, 4], [6, 8, 10], [1, 3, 5], [7, 9, 11]],
           num_samples = 6, total_size = 12 \<rparr>"
  by code_simp

lemma sampler_init_scenario:
  "sampler_init 12 3 2 2 0 False 0 =
     Inr \<lparr> batch_size = 3, num_heads = 2, num_replicas = 2, rank = 0,
           shuffle = False, seed = 0, epoch = 0,
           indices_batched = [[0, 2, 4], [6, 8, 10], [1, 3, 5], [7, 9, 11]],
           num_samples = 6, total_size = 12 \<rparr>"
  by code_simp

text \<open>
  Claim C2. For every \<open>(n, h, b)\<close> with \<open>n mod h = 0\<close> (head count, batch size and
  replica count positive, so that construction does not raise), the sampler is
  constructed and its table has \<open>h * ((n div h) div b)\<close> rows of width \<open>b\<close>; every entry
  of row \<open>\<rho>\<close> belongs to head \<open>\<rho> div K\<close> with \<open>K = (n div h) div b\<close> (rows are
  head-homogeneous and the head blocks are stacked in ascending head order); head \<open>i\<close>'s
  strided list is \<open>i, i + h, i + 2h, ...\<close>, and its block, flattened, is that list
  without its last \<open>(n div h) mod b\<close> entries.
\<close>

theorem partition_table_shape:
  assumes "0 < h" "n mod h = 0" "0 < b" "0 < nr"
  shows "\<exists>s. sampler_init n b h nr rk shuf sd = Inr s \<and>
           length (indices_batched s) = h * (n div h div b) \<and>
           (\<forall>row \<in> set (indices_batched s). length row = b) \<and>
           (\<forall>\<rho> < h * (n div h div b). \<forall>x \<in> set (indices_batched s ! \<rho>).
               x mod h = \<rho> div (n div h div b)) \<and>
           (\<forall>i < h. slice_from i h [0..<n] = map (\<lambda>j. i + j * h) [0..<n div h] \<and>
               concat (take (n div h div b) (drop (i * (n div h div b)) (indices_batched s)))
                 = take (n div h - (n div h) mod b) (slice_from i h [0..<n]))"
proof -
  let ?K = "n div h div b"
  obtain s where s: "sampler_init n b h nr rk shuf sd = Inr s"
    and tab: "indices_batched s = table_spec n b h"
    using sampler_init_ok[OF assms] by simp
  have len: "length (indices_batched s) = h * ?K"
    by (simp only: tab table_spec_length)
  have width: "\<forall>row \<in> set (indices_batched s). length row = b"
    by (simp only: tab table_spec_row_width ball_triv) (simp add: table_spec_row_width)
  have head: "\<forall>\<rho> < h * ?K. \<forall>x \<in> set (indices_batched s ! \<rho>). x mod h = \<rho> div ?K"
    unfolding tab using table_spec_head by blast
  have blocks: "\<forall>i < h. slice_from i h [0..<n] = map (\<lambda>j. i + j * h) [0..<n div h] \<and>
       concat (take ?K (drop (i * ?K) (indices_batched s)))
         = take (n div h - (n div h) mod b) (slice_from i h [0..<n])"
  proof (intro allI impI conjI)
    fix i assume ih: "i < h"
    show st: "slice_from i h [0..<n] = map (\<lambda>j. i + j * h) [0..<n div h]"
      by (rule head_strided_list[OF ih assms(2)])
    have "b * ?K \<le> n div h" by simp
    then have "take (b * ?K) (map (\<lambda>j. i + j * h) [0..<n div h]) = map (\<lambda>j. i + j * h) [0..<b * ?K]"
      by (simp add: take_map)
    then show "concat (take ?K (drop (i * ?K) (indices_batched s)))
         = take (n div h - (n div h) mod b) (slice_from i h [0..<n])"
      by (simp only: tab table_spec_block[OF ih] st kept_per_head)
  qed
  from s len width head blocks show ?thesis by blast
qed

theorem partition_table_shape_witness:
  "(0::nat) < 2 \<and> (14::nat) mod 2 = 0 \<and> (0::nat) < 3 \<and> (0::nat) < 2 \<and>
   (\<exists>s. sampler_init 14 3 2 2 0 False 0 = Inr s \<and>
           length (indices_batched s) = 2 * (14 div 2 div 3) \<and>
           (\<forall>row \<in> set (indices_batched s). length row = 3) \<and>
           (\<forall>\<rho> < 2 * (14 div 2 div 3). \<forall>x \<in> set (indices_batched s ! \<rho>).
               x mod 2 = \<rho> div (14 div 2 div 3)) \<and>
           (\<forall>i < 2. slice_from i 2 [0..<14] = map (\<lambda>j. i + j * 2) [0..<14 div 2] \<and>
               concat (take (14 div 2 div 3) (drop (i * (14 div 2 div 3)) (indices_batched s)))
                 = take (14 div 2 - (14 div 2) mod 3) (slice_from i 2 [0..<14])))"
proof -
  have h1: "(0::nat) < 2" and h2: "(14::nat) mod 2 = 0" and h3: "(0::nat) < 3" by simp_all
  from partition_table_shape[OF h1 h2 h3 h1, of 0 False 0] h1 h2 h3 show ?thesis
    by (intro conjI)
qed

section \<open>Per-epoch iteration of the sampler\<close>

text \<open>
  Where the row list is long enough for the wraparound prefix (the row count \<open>R\<close> is a
  multiple of \<open>num_replicas\<close>, or \<open>num_replicas - R mod num_replicas\<close> is at most \<open>R\<close>),
  the construction invariant holds, both assertions pass and the flattened sequence
  has length exactly \<open>num_samples\<close>, for every epoch and every rank below
  \<open>num_replicas\<close>.
\<close>

lemma sampler_iter_length_padded:
  assumes init: "sampler_init n b h nr rk shuf sd = Inr s"
    and rk: "rk < nr" and rp: "is_randperm rp"
    and fit: "length (indices_batched s) mod nr = 0 \<or>
       nr - length (indices_batched s) mod nr \<le> length (indices_batched s)"
  shows "num_samples s * num_replicas s = total_size s"
    and "\<exists>out. sampler_iter rp (set_epoch e s) = Inr out \<and> length out = num_samples s"
proof -
  note f = sampler_init_fields[OF init] and wf = sampler_init_wf[OF init, of e]
  show "num_samples s * num_replicas s = total_size s" by (simp add: f)
  have rk': "rank (set_epoch e s) < num_replicas (set_epoch e s)"
    using rk by (simp add: set_epoch_fields f)
  have fit': "length (indices_batched (set_epoch e s)) mod num_replicas (set_epoch e s) = 0 \<or>
       num_replicas (set_epoch e s) - length (indices_batched (set_epoch e s)) mod num_replicas (set_epoch e s)
         \<le> length (indices_batched (set_epoch e s))"
    using fit by (simp add: set_epoch_fields f)
  from sampler_iter_ok[OF wf(1) rk' wf(3) wf(4) wf(5) rp fit']
  show "\<exists>out. sampler_iter rp (set_epoch e s) = Inr out \<and> length out = num_samples s"
    by (simp add: set_epoch_fields)
qed

text \<open>
  Claim C1. \<open>num_samples * num_replicas = total_size\<close> holds at construction, and for
  every epoch and rank the padded row list is meant to reach \<open>total_size / batch_size\<close>
  rows, so that neither assertion fails. Lines 72-74 compute the padding size
  \<open>num_replicas - R mod num_replicas\<close> but append \<open>indices[:padding_size]\<close>, which has at
  most \<open>R\<close> rows. With a dataset of 4 samples, 2 heads, batch size 2 and 8 replicas the
  table has 2 rows, 6 more are needed, only 2 are appended: the padded list has 4
  entries instead of 8 and the assertion of line 76 fails.
\<close>

theorem sampler_iter_padding_falls_short:
  "sampler_init 4 2 2 8 0 True 0 =
     Inr \<lparr> batch_size = 2, num_heads = 2, num_replicas = 8, rank = 0,
           shuffle = True, seed = 0, epoch = 0,
           indices_batched = [[0, 2], [1, 3]],
           num_samples = 2, total_size = 16 \<rparr> \<and>
   pad_indices 8 (row_order rot_perm (set_epoch 0
        \<lparr> batch_size = 2, num_heads = 2, num_replicas = 8, rank = 0,
           shuffle = True, seed = 0, epoch = 0,
           indices_batched = [[0, 2], [1, 3]],
           num_samples = 2, total_size = 16 \<rparr>)) = [0, 1, 0, 1] \<and>
   sampler_iter rot_perm (set_epoch 0
        \<lparr> batch_size = 2, num_heads = 2, num_replicas = 8, rank = 0,
           shuffle = True, seed = 0, epoch = 0,
           indices_batched = [[0, 2], [1, 3]],
           num_samples = 2, total_size = 16 \<rparr>) = Inl AssertionError"
  by code_simp

text \<open>
  Claim C5. For every epoch and every rank \<open>rk\<close> below \<open>nr\<close>, the rows selected are the
  entries of the padded (permuted) row list at positions \<open>rk, rk + nr, rk + 2 nr, ...\<close>
  (striped, not a contiguous block). Whenever the padded-length check passes, one row is
  selected for every \<open>nr\<close> padded entries and the sequence yielded is the concatenation
  of the selected width-\<open>b\<close> rows in selection order: its entry \<open>j * b + c\<close> is entry \<open>c\<close>
  of the \<open>j\<close>-th selected row. Otherwise the epoch raises and yields nothing.
\<close>

theorem sampler_iter_striped:
  fixes s :: sampler and e :: int and rp :: "int \<Rightarrow> nat \<Rightarrow> nat list"
  defines "padded \<equiv> pad_indices (num_replicas s) (row_order rp (set_epoch e s))"
  defines "sel \<equiv> slice_from (rank s) (num_replicas s) padded"
  defines "fit \<equiv> length (indices_batched s) mod num_replicas s = 0 \<or>
       num_replicas s - length (indices_batched s) mod num_replicas s \<le> length (indices_batched s)"
  assumes init: "sampler_init n b h nr rk shuf sd = Inr s"
    and rk: "rk < nr" and rp: "is_randperm rp"
  shows "(\<forall>j < length sel. sel ! j = padded ! (rk + j * nr)) \<and>
     (fit \<longrightarrow>
        sampler_iter rp (set_epoch e s) = Inr (concat (map (\<lambda>i. indices_batched s ! i) sel)) \<and>
        length sel * nr = length padded \<and>
        (\<forall>j < length sel. \<forall>c < b.
           concat (map (\<lambda>i. indices_batched s ! i) sel) ! (j * b + c)
             = indices_batched s ! (sel ! j) ! c)) \<and>
     (\<not> fit \<longrightarrow> sampler_iter rp (set_epoch e s) = Inl AssertionError)"
proof (intro conjI impI)
  note f = sampler_init_fields[OF init] and wf = sampler_init_wf[OF init, of e]
  have nr: "0 < nr" using sampler_init_guards[OF init] by simp
  let ?s = "set_epoch e s"
  have rk': "rank ?s < num_replicas ?s" using rk by (simp add: set_epoch_fields f)
  show c3: "\<forall>j < length sel. sel ! j = padded ! (rk + j * nr)"
    unfolding sel_def f using slice_from_nth[OF nr] by blast
  have sel_eq: "sel = slice_from (rank ?s) (num_replicas ?s) (pad_indices (num_replicas ?s) (row_order rp ?s))"
    by (simp add: sel_def padded_def set_epoch_fields)
  {
    assume fit
    then have fit0: "length (indices_batched s) mod nr = 0 \<or>
       nr - length (indices_batched s) mod nr \<le> length (indices_batched s)"
      by (simp add: fit_def f)
    then have fit': "length (indices_batched ?s) mod num_replicas ?s = 0 \<or>
       num_replicas ?s - length (indices_batched ?s) mod num_replicas ?s \<le> length (indices_batched ?s)"
      by (simp add: set_epoch_fields f)
    show "sampler_iter rp ?s = Inr (concat (map (\<lambda>i. indices_batched s ! i) sel))"
      using sampler_iter_ok(1)[OF wf(1) rk' wf(3) wf(4) wf(5) rp fit']
      by (simp add: sel_eq set_epoch_fields)
    have plen: "length padded = nr * ((length (indices_batched s) + nr - 1) div nr)"
      unfolding padded_def f(2)
      by (rule padded_length_fit[OF nr fit0]) (simp add: row_order_length[OF rp] set_epoch_fields)
    have sel_len: "length sel = (length (indices_batched s) + nr - 1) div nr"
      unfolding sel_def f slice_from_length[OF nr] plen by (rule stride_count[OF rk])
    show "length sel * nr = length padded" by (simp add: sel_len plen mult.commute)
    have range: "\<forall>i \<in> set sel. i < length (indices_batched s)"
      unfolding sel_def padded_def
      using slice_from_subset[of "rank s" "num_replicas s" "pad_indices (num_replicas s) (row_order rp ?s)"]
        pad_indices_subset[of "num_replicas s" "row_order rp ?s"]
        row_order_range[OF rp, of _ ?s] by (auto simp: set_epoch_fields)
    have u: "\<forall>x \<in> set (map (\<lambda>i. indices_batched s ! i) sel). length x = b"
      using range wf(3) by (simp add: set_epoch_fields f(1))
    show "\<forall>j < length sel. \<forall>c < b.
          concat (map (\<lambda>i. indices_batched s ! i) sel) ! (j * b + c) = indices_batched s ! (sel ! j) ! c"
    proof (intro allI impI)
      fix j c assume j: "j < length sel" and c: "c < b"
      have jl: "j < length (map (\<lambda>i. indices_batched s ! i) sel)" using j by simp
      show "concat (map (\<lambda>i. indices_batched s ! i) sel) ! (j * b + c) = indices_batched s ! (sel ! j) ! c"
        using concat_uniform_nth[OF u jl c] j by simp
    qed
  }
  {
    assume "\<not> fit"
    then have m: "length (indices_batched ?s) mod num_replicas ?s \<noteq> 0"
      and short: "length (indices_batched ?s) <
         num_replicas ?s - length (indices_batched ?s) mod num_replicas ?s"
      by (simp_all add: fit_def set_epoch_fields)
    show "sampler_iter rp ?s = Inl AssertionError"
      by (rule sampler_iter_fail[OF wf(1) wf(2) wf(4) wf(5) rp m short])
  }
qed

theorem sampler_iter_striped_witness:
  "sampler_init 9 3 1 2 1 True 0 = Inr scenario_sampler \<and>
   (1::nat) < 2 \<and> is_randperm rot_perm \<and>
   sampler_iter rot_perm (set_epoch 4 scenario_sampler) =
     Inr (concat (map (\<lambda>i. indices_batched scenario_sampler ! i)
       (slice_from (rank scenario_sampler) (num_replicas scenario_sampler)
          (pad_indices (num_replicas scenario_sampler)
             (row_order rot_perm (set_epoch 4 scenario_sampler)))))) \<and>
   slice_from (rank scenario_sampler) (num_replicas scenario_sampler)
          (pad_indices (num_replicas scenario_sampler)
             (row_order rot_perm (set_epoch 4 scenario_sampler))) = [2, 1] \<and>
   pad_indices (num_replicas scenario_sampler)
             (row_order rot_perm (set_epoch 4 scenario_sampler)) = [1, 2, 0, 1]"
proof -
  have h2: "(1::nat) < 2" by simp
  have fit: "length (indices_batched scenario_sampler) mod num_replicas scenario_sampler = 0 \<or>
       num_replicas scenario_sampler
         - length (indices_batched scenario_sampler) mod num_replicas scenario_sampler
         \<le> length (indices_batched scenario_sampler)"
    by (simp add: scenario_sampler_def)
  have padded: "pad_indices (num_replicas scenario_sampler)
             (row_order rot_perm (set_epoch 4 scenario_sampler)) = [1, 2, 0, 1]"
    by code_simp
  have sel: "slice_from (rank scenario_sampler) (num_replicas scenario_sampler)
          (pad_indices (num_replicas scenario_sampler)
             (row_order rot_perm (set_epoch 4 scenario_sampler))) = [2, 1]"
    by code_simp
  from sampler_iter_striped[OF scenario_init h2 rot_perm_is_randperm, of 4] fit
  show ?thesis using scenario_init h2 rot_perm_is_randperm padded sel by blast
qed

section \<open>Facts about the aggregator\<close>

lemma bind_result_Inr:
  "bind_result r f = Inr v \<longleftrightarrow> (\<exists>x. r = Inr x \<and> f x = Inr v)"
  by (cases r) (simp_all add: bind_result_def)

lemma bind_result_simps:
  "bind_result (Inr x) f = f x" "bind_result (Inl e) f = Inl e"
  by (simp_all add: bind_result_def)

lemma list_get_nat:
  "list_get xs (int i) = (if i < length xs then Inr (xs ! i) else Inl IndexError)"
  by (simp add: list_get_def)

lemma list_set_nat:
  "list_set xs (int i) v = (if i < length xs then Inr (xs[i := v]) else Inl IndexError)"
  by (simp add: list_set_def)

lemma np_take_prefix:
  assumes "n \<le> length xs"
  shows "np_take xs (map int [0..<n]) = Inr (take n xs)"
proof -
  have "map (list_get xs) (map int [0..<n]) = map (\<lambda>i. Inr (xs ! i)) [0..<n]"
    using assms by (simp add: list_get_nat)
  then have "np_take xs (map int [0..<n]) = Inr (map (\<lambda>i. xs ! i) [0..<n])"
    by (simp only: np_take_def collect_all_ok)
  moreover have "map (\<lambda>i. xs ! i) [0..<n] = take n xs"
    using assms by (intro nth_equalityI) simp_all
  ultimately show ?thesis by simp
qed

lemma start_cloud_fields:
  assumes "start_cloud m smp st = Inr st1"
  shows "curr_cloud_id st1 = int (cloud_id smp)"
    and "ori_test_probs st1 = ori_test_probs st"
    and "ori_test_labels st1 = ori_test_labels st"
    and "complete_infer st1 = (curr_cloud_id st = int (cloud_id smp) \<and> complete_infer st)"
  using assms
  by (auto simp: start_cloud_def bind_result_Inr split: if_splits)

lemma start_cloud_switch:
  assumes "curr_cloud_id st \<noteq> int (cloud_id smp)"
    and "list_get (possibilities smp) (int (cloud_id smp)) = Inr p"
  shows "start_cloud m smp st =
     Inr (st\<lparr>curr_cloud_id := int (cloud_id smp), pbar_update := 0,
              test_probs := test_probs st @ [replicate (length p) (replicate (num_classes m) 0)],
              test_labels := test_labels st @ [replicate (length p) 0],
              complete_infer := False\<rparr>)"
  using assms by (simp add: start_cloud_def bind_result_simps)

lemma complete_cloud_Inr:
  assumes "complete_cloud m smp st = Inr st'"
  shows "\<exists>P L op ol.
     list_get (test_probs st) (curr_cloud_id st) = Inr P \<and>
     list_get (test_labels st) (curr_cloud_id st) = Inr L \<and>
     np_take P (case proj_inds m (curr_cloud_id st) (split smp) of
                  None \<Rightarrow> map int [0..<length P] | Some given \<Rightarrow> given) = Inr op \<and>
     np_take L (case proj_inds m (curr_cloud_id st) (split smp) of
                  None \<Rightarrow> map int [0..<length P] | Some given \<Rightarrow> given) = Inr ol \<and>
     st' = st\<lparr>ori_test_probs := ori_test_probs st @ [op],
              ori_test_labels := ori_test_labels st @ [ol],
              complete_infer := True\<rparr>"
  using assms by (auto simp: complete_cloud_def Let_def bind_result_Inr)

lemma update_tests_eval:
  assumes "start_cloud m smp st = Inr st1"
    and "list_get (possibilities smp) (int (cloud_id smp)) = Inr p"
    and "list_get (test_probs st1) (curr_cloud_id st1) = Inr old_probs"
    and "list_get (test_labels st1) (curr_cloud_id st1) = Inr old_labels"
    and "list_set (test_probs st1) (curr_cloud_id st1)
           (fst (update_probs m inputs results old_probs old_labels)) = Inr tprob"
    and "list_set (test_labels st1) (curr_cloud_id st1)
           (snd (update_probs m inputs results old_probs old_labels)) = Inr tlab"
  shows "update_tests m smp inputs results st =
     (if split smp = ''test'' \<and> covered_count p = length p
      then complete_cloud m smp
             (st1\<lparr>pbar_update := covered_count p,
                   test_probs := tprob, test_labels := tlab\<rparr>)
      else Inr (st1\<lparr>pbar_update := covered_count p,
                      test_probs := tprob, test_labels := tlab\<rparr>))"
  by (simp add: update_tests_def Let_def bind_result_simps assms)

lemma update_tests_Inr:
  assumes ok: "update_tests m smp inputs results st = Inr st'"
  shows "\<exists>st1 p old_probs old_labels tprob tlab.
     start_cloud m smp st = Inr st1 \<and>
     list_get (possibilities smp) (int (cloud_id smp)) = Inr p \<and>
     list_get (test_probs st1) (curr_cloud_id st1) = Inr old_probs \<and>
     list_get (test_labels st1) (curr_cloud_id st1) = Inr old_labels \<and>
     list_set (test_probs st1) (curr_cloud_id st1)
        (fst (update_probs m inputs results old_probs old_labels)) = Inr tprob \<and>
     list_set (test_labels st1) (curr_cloud_id st1)
        (snd (update_probs m inputs results old_probs old_labels)) = Inr tlab"
proof -
  obtain st1 where a1: "start_cloud m smp st = Inr st1"
    using ok by (cases "start_cloud m smp st") (simp_all add: update_tests_def bind_result_simps)
  obtain p where a2: "list_get (possibilities smp) (int (cloud_id smp)) = Inr p"
    using ok a1 by (cases "list_get (possibilities smp) (int (cloud_id smp))")
      (simp_all add: update_tests_def bind_result_simps)
  obtain old_probs where a3: "list_get (test_probs st1) (curr_cloud_id st1) = Inr old_probs"
    using ok a1 a2 by (cases "list_get (test_probs st1) (curr_cloud_id st1)")
      (simp_all add: update_tests_def bind_result_simps Let_def)
  obtain old_labels where a4: "list_get (test_labels st1) (curr_cloud_id st1) = Inr old_labels"
    using ok a1 a2 a3 by (cases "list_get (test_labels st1) (curr_cloud_id st1)")
      (simp_all add: update_tests_def bind_result_simps Let_def)
  obtain tprob where a5: "list_set (test_probs st1) (curr_cloud_id st1)
        (fst (update_probs m inputs results old_probs old_labels)) = Inr tprob"
    using ok a1 a2 a3 a4 by (cases "list_set (test_probs st1) (curr_cloud_id st1)
        (fst (update_probs m inputs results old_probs old_labels))")
      (simp_all add: update_tests_def bind_result_simps Let_def)
  obtain tlab where a6: "list_set (test_labels st1) (curr_cloud_id st1)
        (snd (update_probs m inputs results old_probs old_labels)) = Inr tlab"
    using ok a1 a2 a3 a4 a5 by (cases "list_set (test_labels st1) (curr_cloud_id st1)
        (snd (update_probs m inputs results old_probs old_labels))")
      (simp_all add: update_tests_def bind_result_simps Let_def)
  from a1 a2 a3 a4 a5 a6 show ?thesis by blast
qed

lemma demo_poss:
  "list_get (possibilities demo_spatial) (int (cloud_id demo_spatial)) = Inr [0.7, 0.9, 0.6]"
  by (simp add: demo_spatial_def list_get_def)

lemma demo_covered: "covered_count [0.7, 0.9, 0.6] = length [0.7, 0.9, 0.6 :: real]"
  by (simp add: covered_count_def end_threshold_def)

lemma demo_update:
  "update_tests demo_model demo_spatial [1, 0, 1] [[0.2, 0.8], [0.9, 0.1], [0.3, 0.7]] fresh_aggregator =
     Inr \<lparr> curr_cloud_id = 0, pbar_update = 3,
           test_probs = [[[0.2, 0.8], [0.9, 0.1], [0.3, 0.7]]], test_labels = [[1, 0, 1]],
           ori_test_probs = [[[0.2, 0.8], [0.9, 0.1], [0.3, 0.7]]], ori_test_labels = [[1, 0, 1]],
           complete_infer = True \<rparr>"
  by (simp add: update_tests_def start_cloud_def complete_cloud_def demo_model_def demo_spatial_def
      fresh_aggregator_def list_get_def list_set_def np_take_def bind_result_def Let_def
      covered_count_def end_threshold_def upt_rec)

lemma demo_update_validation:
  "update_tests demo_model (demo_spatial\<lparr>split := ''validation''\<rparr>) [1, 0, 1]
       [[0.2, 0.8], [0.9, 0.1], [0.3, 0.7]] fresh_aggregator =
     Inr \<lparr> curr_cloud_id = 0, pbar_update = 3,
           test_probs = [[[0.2, 0.8], [0.9, 0.1], [0.3, 0.7]]], test_labels = [[1, 0, 1]],
           ori_test_probs = [], ori_test_labels = [],
           complete_infer = False \<rparr>"
  by (simp add: update_tests_def start_cloud_def complete_cloud_def demo_model_def demo_spatial_def
      fresh_aggregator_def list_get_def list_set_def np_take_def bind_result_def Let_def
      covered_count_def end_threshold_def upt_rec)

lemma update_tests_complete_branch:
  assumes ok: "update_tests m smp inputs results st = Inr st'"
    and poss: "list_get (possibilities smp) (int (cloud_id smp)) = Inr p"
    and cond: "split smp = ''test'' \<and> covered_count p = length p"
  shows "\<exists>P L op ol.
           list_get (test_probs st') (int (cloud_id smp)) = Inr P \<and>
           list_get (test_labels st') (int (cloud_id smp)) = Inr L \<and>
           np_take P (case proj_inds m (int (cloud_id smp)) (split smp) of
                        None \<Rightarrow> map int [0..<length P] | Some given \<Rightarrow> given) = Inr op \<and>
           np_take L (case proj_inds m (int (cloud_id smp)) (split smp) of
                        None \<Rightarrow> map int [0..<length P] | Some given \<Rightarrow> given) = Inr ol \<and>
           ori_test_probs st' = ori_test_probs st @ [op] \<and>
           ori_test_labels st' = ori_test_labels st @ [ol] \<and>
           complete_infer st'"
proof -
  from update_tests_Inr[OF ok] poss
  obtain st1 old_probs old_labels tprob tlab where
    a1: "start_cloud m smp st = Inr st1"
    and a3: "list_get (test_probs st1) (curr_cloud_id st1) = Inr old_probs"
    and a4: "list_get (test_labels st1) (curr_cloud_id st1) = Inr old_labels"
    and a5: "list_set (test_probs st1) (curr_cloud_id st1)
        (fst (update_probs m inputs results old_probs old_labels)) = Inr tprob"
    and a6: "list_set (test_labels st1) (curr_cloud_id st1)
        (snd (update_probs m inputs results old_probs old_labels)) = Inr tlab"
    by blast
  let ?st3 = "st1\<lparr>pbar_update := covered_count p, test_probs := tprob, test_labels := tlab\<rparr>"
  note ev = update_tests_eval[OF a1 poss a3 a4 a5 a6]
  note sc = start_cloud_fields[OF a1]
  have cc: "complete_cloud m smp ?st3 = Inr st'" using ev ok cond by simp
  from complete_cloud_Inr[OF cc] obtain P L op ol where
    b1: "list_get tprob (int (cloud_id smp)) = Inr P"
    and b2: "list_get tlab (int (cloud_id smp)) = Inr L"
    and b3: "np_take P (case proj_inds m (int (cloud_id smp)) (split smp) of
                None \<Rightarrow> map int [0..<length P] | Some given \<Rightarrow> given) = Inr op"
    and b4: "np_take L (case proj_inds m (int (cloud_id smp)) (split smp) of
                None \<Rightarrow> map int [0..<length P] | Some given \<Rightarrow> given) = Inr ol"
    and b5: "st' = ?st3\<lparr>ori_test_probs := ori_test_probs ?st3 @ [op],
            ori_test_labels := ori_test_labels ?st3 @ [ol],
            complete_infer := True\<rparr>"
    by (auto simp: sc(1))
  have "complete_infer st'" by (simp add: b5)
  moreover have "list_get (test_probs st') (int (cloud_id smp)) = Inr P" by (simp add: b5 b1)
  moreover have "list_get (test_labels st') (int (cloud_id smp)) = Inr L" by (simp add: b5 b2)
  moreover have "ori_test_probs st' = ori_test_probs st @ [op]" by (simp add: b5 sc)
  moreover have "ori_test_labels st' = ori_test_labels st @ [ol]" by (simp add: b5 sc)
  ultimately show ?thesis using b3 b4 by blast
qed

lemma update_tests_other_branch:
  assumes ok: "update_tests m smp inputs results st = Inr st'"
    and poss: "list_get (possibilities smp) (int (cloud_id smp)) = Inr p"
    and cond: "\<not> (split smp = ''test'' \<and> covered_count p = length p)"
  shows "ori_test_probs st' = ori_test_probs st"
    and "ori_test_labels st' = ori_test_labels st"
    and "complete_infer st' = (curr_cloud_id st = int (cloud_id smp) \<and> complete_infer st)"
proof -
  from update_tests_Inr[OF ok] poss
  obtain st1 old_probs old_labels tprob tlab where
    a1: "start_cloud m smp st = Inr st1"
    and a3: "list_get (test_probs st1) (curr_cloud_id st1) = Inr old_probs"
    and a4: "list_get (test_labels st1) (curr_cloud_id st1) = Inr old_labels"
    and a5: "list_set (test_probs st1) (curr_cloud_id st1)
        (fst (update_probs m inputs results old_probs old_labels)) = Inr tprob"
    and a6: "list_set (test_labels st1) (curr_cloud_id st1)
        (snd (update_probs m inputs results old_probs old_labels)) = Inr tlab"
    by blast
  let ?st3 = "st1\<lparr>pbar_update := covered_count p, test_probs := tprob, test_labels := tlab\<rparr>"
  note ev = update_tests_eval[OF a1 poss a3 a4 a5 a6]
  note sc = start_cloud_fields[OF a1]
  have "update_tests m smp inputs results st = Inr ?st3"
    using ev by (simp only: if_not_P[OF cond])
  then have st': "st' = ?st3" using ok by simp
  show "ori_test_probs st' = ori_test_probs st" by (simp add: st' sc)
  show "ori_test_labels st' = ori_test_labels st" by (simp add: st' sc)
  show "complete_infer st' = (curr_cloud_id st = int (cloud_id smp) \<and> complete_infer st)"
    by (simp add: st' sc)
qed

lemma covered_count_eq: "covered_count p = length (filter (\<lambda>x. x > 0.5) p)"
  unfolding covered_count_def end_threshold_def by (rule refl)

lemma length_filter_all:
  "length (filter P xs) = length xs \<longleftrightarrow> (\<forall>x \<in> set xs. P x)"
proof (induction xs)
  case Nil
  then show ?case by simp
next
  case (Cons a xs)
  have le: "length (filter P xs) \<le> length xs" by (rule length_filter_le)
  show ?case
  proof (cases "P a")
    case True
    then show ?thesis using Cons.IH by simp
  next
    case False
    have "length (filter P xs) \<noteq> Suc (length xs)" using le by linarith
    then show ?thesis using False by simp
  qed
qed

lemma full_coverage_iff:
  "length (filter (\<lambda>x. x > 0.5) p) = length p \<longleftrightarrow> (\<forall>x \<in> set p. x > (0.5::real))"
  by (rule length_filter_all)

lemma list_get_Inr:
  assumes "list_get xs i = Inr y"
  shows "- int (length xs) \<le> i \<and> i < int (length xs) \<and>
         y = xs ! nat (if i < 0 then i + int (length xs) else i)"
  using assms by (auto simp: list_get_def split: if_splits)

lemma np_take_Inr:
  "np_take xs inds = Inr ys \<Longrightarrow>
     ys = map (\<lambda>i. xs ! nat (if i < 0 then i + int (length xs) else i)) inds \<and>
     (\<forall>i \<in> set inds. - int (length xs) \<le> i \<and> i < int (length xs))"
proof (induction inds arbitrary: ys)
  case Nil
  then show ?case by (simp add: np_take_def)
next
  case (Cons i inds)
  from Cons.prems obtain v vs where
    v: "list_get xs i = Inr v" and vs: "np_take xs inds = Inr vs" and ys: "ys = v # vs"
    by (auto simp: np_take_def bind_result_Inr)
  from Cons.IH[OF vs] list_get_Inr[OF v] ys show ?case by simp
qed

lemma demo_update_proj:
  "update_tests demo_model_proj demo_spatial [1, 0, 1] [[0.2, 0.8], [0.9, 0.1], [0.3, 0.7]]
       fresh_aggregator =
     Inr \<lparr> curr_cloud_id = 0, pbar_update = 3,
           test_probs = [[[0.2, 0.8], [0.9, 0.1], [0.3, 0.7]]], test_labels = [[1, 0, 1]],
           ori_test_probs = [[[0.3, 0.7], [0.2, 0.8], [0.9, 0.1], [0.9, 0.1]]],
           ori_test_labels = [[1, 1, 0, 0]],
           complete_infer = True \<rparr>"
  by (simp add: update_tests_def start_cloud_def complete_cloud_def demo_model_proj_def
      demo_model_def demo_spatial_def
      fresh_aggregator_def list_get_def list_set_def np_take_def bind_result_def Let_def
      covered_count_def end_threshold_def)

lemma demo_update_boundary:
  "update_tests demo_model_proj (demo_spatial\<lparr>possibilities := [[0.7, 0.5, 0.6]]\<rparr>) [1, 0, 1]
       [[0.2, 0.8], [0.9, 0.1], [0.3, 0.7]] fresh_aggregator =
     Inr \<lparr> curr_cloud_id = 0, pbar_update = 2,
           test_probs = [[[0.2, 0.8], [0.9, 0.1], [0.3, 0.7]]], test_labels = [[1, 0, 1]],
           ori_test_probs = [], ori_test_labels = [],
           complete_infer = False \<rparr>"
  by (simp add: update_tests_def start_cloud_def complete_cloud_def demo_model_proj_def
      demo_model_def demo_spatial_def
      fresh_aggregator_def list_get_def list_set_def np_take_def bind_result_def Let_def
      covered_count_def end_threshold_def)

section \<open>Cloud completion\<close>

text \<open>
  Claim C3. In \<open>update_tests\<close>, when the split is \<open>test\<close> and the number of entries of
  the cloud's possibility map strictly above 0.5 equals the number of points, the
  completion actions are performed: the projection is resolved (the given
  \<open>proj_inds\<close>, or \<open>0 .. count - 1\<close>), every index of it lies within the buffers, the
  accumulated probability and label buffers are gathered through it, entry by entry,
  and appended to the original-order output lists, and the completion flag is set. In
  every other case (another split, even at full coverage, or incomplete coverage) the
  output lists are untouched and the flag is not set: it is cleared when the cloud id
  changed and keeps its value otherwise.
\<close>

theorem update_tests_completion:
  assumes ok: "update_tests m smp inputs results st = Inr st'"
    and poss: "list_get (possibilities smp) (int (cloud_id smp)) = Inr p"
  shows "(split smp = ''test'' \<and> length (filter (\<lambda>x. x > 0.5) p) = length p \<longrightarrow>
            complete_infer st' \<and>
            (\<exists>P L inds.
               list_get (test_probs st') (int (cloud_id smp)) = Inr P \<and>
               list_get (test_labels st') (int (cloud_id smp)) = Inr L \<and>
               inds = (case proj_inds m (int (cloud_id smp)) (split smp) of
                         None \<Rightarrow> map int [0..<length P] | Some given \<Rightarrow> given) \<and>
               (\<forall>i \<in> set inds. - int (length P) \<le> i \<and> i < int (length P) \<and>
                                 - int (length L) \<le> i \<and> i < int (length L)) \<and>
               ori_test_probs st' = ori_test_probs st @
                 [map (\<lambda>i. P ! nat (if i < 0 then i + int (length P) else i)) inds] \<and>
               ori_test_labels st' = ori_test_labels st @
                 [map (\<lambda>i. L ! nat (if i < 0 then i + int (length L) else i)) inds])) \<and>
         (\<not> (split smp = ''test'' \<and> length (filter (\<lambda>x. x > 0.5) p) = length p) \<longrightarrow>
            ori_test_probs st' = ori_test_probs st \<and>
            ori_test_labels st' = ori_test_labels st \<and>
            complete_infer st' = (curr_cloud_id st = int (cloud_id smp) \<and> complete_infer st))"
proof (intro conjI impI)
  assume c: "split smp = ''test'' \<and> length (filter (\<lambda>x. x > 0.5) p) = length p"
  then have c': "split smp = ''test'' \<and> covered_count p = length p"
    unfolding covered_count_eq .
  from update_tests_complete_branch[OF ok poss c']
  obtain P L op ol where
    P: "list_get (test_probs st') (int (cloud_id smp)) = Inr P"
    and L: "list_get (test_labels st') (int (cloud_id smp)) = Inr L"
    and gp: "np_take P (case proj_inds m (int (cloud_id smp)) (split smp) of
                        None \<Rightarrow> map int [0..<length P] | Some given \<Rightarrow> given) = Inr op"
    and gl: "np_take L (case proj_inds m (int (cloud_id smp)) (split smp) of
                        None \<Rightarrow> map int [0..<length P] | Some given \<Rightarrow> given) = Inr ol"
    and op: "ori_test_probs st' = ori_test_probs st @ [op]"
    and ol: "ori_test_labels st' = ori_test_labels st @ [ol]"
    and fin: "complete_infer st'"
    by blast
  show "complete_infer st'" by (rule fin)
  let ?inds = "case proj_inds m (int (cloud_id smp)) (split smp) of
                        None \<Rightarrow> map int [0..<length P] | Some given \<Rightarrow> given"
  note a = np_take_Inr[OF gp] and b = np_take_Inr[OF gl]
  have r: "\<forall>i \<in> set ?inds. - int (length P) \<le> i \<and> i < int (length P) \<and>
                                 - int (length L) \<le> i \<and> i < int (length L)"
    using a b by blast
  have e1: "ori_test_probs st' = ori_test_probs st @
                 [map (\<lambda>i. P ! nat (if i < 0 then i + int (length P) else i)) ?inds]"
    using a op by simp
  have e2: "ori_test_labels st' = ori_test_labels st @
                 [map (\<lambda>i. L ! nat (if i < 0 then i + int (length L) else i)) ?inds]"
    using b ol by simp
  from P L r e1 e2
  show "\<exists>P L inds.
               list_get (test_probs st') (int (cloud_id smp)) = Inr P \<and>
               list_get (test_labels st') (int (cloud_id smp)) = Inr L \<and>
               inds = (case proj_inds m (int (cloud_id smp)) (split smp) of
                         None \<Rightarrow> map int [0..<length P] | Some given \<Rightarrow> given) \<and>
               (\<forall>i \<in> set inds. - int (length P) \<le> i \<and> i < int (length P) \<and>
                                 - int (length L) \<le> i \<and> i < int (length L)) \<and>
               ori_test_probs st' = ori_test_probs st @
                 [map (\<lambda>i. P ! nat (if i < 0 then i + int (length P) else i)) inds] \<and>
               ori_test_labels st' = ori_test_labels st @
                 [map (\<lambda>i. L ! nat (if i < 0 then i + int (length L) else i)) inds]"
    by blast
next
  assume "\<not> (split smp = ''test'' \<and> length (filter (\<lambda>x. x > 0.5) p) = length p)"
  then have c: "\<not> (split smp = ''test'' \<and> covered_count p = length p)"
    unfolding covered_count_eq .
  show "ori_test_probs st' = ori_test_probs st"
    by (rule update_tests_other_branch(1)[OF ok poss c])
  show "ori_test_labels st' = ori_test_labels st"
    by (rule update_tests_other_branch(2)[OF ok poss c])
  show "complete_infer st' = (curr_cloud_id st = int (cloud_id smp) \<and> complete_infer st)"
    by (rule update_tests_other_branch(3)[OF ok poss c])
qed

theorem update_tests_completion_witness:
  "(\<exists>st'. update_tests demo_model_proj demo_spatial [1, 0, 1]
             [[0.2, 0.8], [0.9, 0.1], [0.3, 0.7]] fresh_aggregator = Inr st' \<and>
      complete_infer st' \<and>
      ori_test_probs st' = [[[0.3, 0.7], [0.2, 0.8], [0.9, 0.1], [0.9, 0.1]]] \<and>
      ori_test_labels st' = [[1, 1, 0, 0]]) \<and>
   list_get (possibilities demo_spatial) (int (cloud_id demo_spatial)) = Inr [0.7, 0.9, 0.6] \<and>
   split demo_spatial = ''test'' \<and>
   length (filter (\<lambda>x. x > 0.5) [0.7, 0.9, 0.6 :: real]) = length [0.7, 0.9, 0.6 :: real] \<and>
   (\<exists>st'. update_tests demo_model_proj (demo_spatial\<lparr>possibilities := [[0.7, 0.5, 0.6]]\<rparr>)
             [1, 0, 1] [[0.2, 0.8], [0.9, 0.1], [0.3, 0.7]] fresh_aggregator = Inr st' \<and>
      \<not> complete_infer st' \<and> ori_test_probs st' = [] \<and> ori_test_labels st' = []) \<and>
   length (filter (\<lambda>x. x > 0.5) [0.7, 0.5, 0.6 :: real]) \<noteq> length [0.7, 0.5, 0.6 :: real] \<and>
   (\<exists>st'. update_tests demo_model (demo_spatial\<lparr>split := ''validation''\<rparr>)
             [1, 0, 1] [[0.2, 0.8], [0.9, 0.1], [0.3, 0.7]] fresh_aggregator = Inr st' \<and>
      \<not> complete_infer st' \<and> ori_test_probs st' = [] \<and> ori_test_labels st' = []) \<and>
   split (demo_spatial\<lparr>split := ''validation''\<rparr>) \<noteq> ''test''"
proof -
  have sp: "split demo_spatial = ''test''" by (simp add: demo_spatial_def)
  have full: "length (filter (\<lambda>x. x > 0.5) [0.7, 0.9, 0.6 :: real]) = length [0.7, 0.9, 0.6 :: real]"
    by simp
  have part: "length (filter (\<lambda>x. x > 0.5) [0.7, 0.5, 0.6 :: real]) \<noteq> length [0.7, 0.5, 0.6 :: real]"
    by simp
  have val: "split (demo_spatial\<lparr>split := ''validation''\<rparr>) \<noteq> ''test''" by simp
  have poss2: "list_get (possibilities (demo_spatial\<lparr>possibilities := [[0.7, 0.5, 0.6]]\<rparr>))
       (int (cloud_id (demo_spatial\<lparr>possibilities := [[0.7, 0.5, 0.6]]\<rparr>))) = Inr [0.7, 0.5, 0.6]"
    by (simp add: demo_spatial_def list_get_def)
  have poss3: "list_get (possibilities (demo_spatial\<lparr>split := ''validation''\<rparr>))
       (int (cloud_id (demo_spatial\<lparr>split := ''validation''\<rparr>))) = Inr [0.7, 0.9, 0.6]"
    by (simp add: demo_spatial_def list_get_def)
  have fresh: "ori_test_probs fresh_aggregator = []" "ori_test_labels fresh_aggregator = []"
    "\<not> complete_infer fresh_aggregator"
    by (simp_all add: fresh_aggregator_def)
  have s1: "\<exists>st'. update_tests demo_model_proj demo_spatial [1, 0, 1]
             [[0.2, 0.8], [0.9, 0.1], [0.3, 0.7]] fresh_aggregator = Inr st' \<and>
      complete_infer st' \<and>
      ori_test_probs st' = [[[0.3, 0.7], [0.2, 0.8], [0.9, 0.1], [0.9, 0.1]]] \<and>
      ori_test_labels st' = [[1, 1, 0, 0]]"
    using update_tests_completion[OF demo_update_proj demo_poss] sp full demo_update_proj
    by simp
  have s2: "\<exists>st'. update_tests demo_model_proj (demo_spatial\<lparr>possibilities := [[0.7, 0.5, 0.6]]\<rparr>)
             [1, 0, 1] [[0.2, 0.8], [0.9, 0.1], [0.3, 0.7]] fresh_aggregator = Inr st' \<and>
      \<not> complete_infer st' \<and> ori_test_probs st' = [] \<and> ori_test_labels st' = []"
    using update_tests_completion[OF demo_update_boundary poss2] part fresh demo_update_boundary
    by simp
  have s3: "\<exists>st'. update_tests demo_model (demo_spatial\<lparr>split := ''validation''\<rparr>)
             [1, 0, 1] [[0.2, 0.8], [0.9, 0.1], [0.3, 0.7]] fresh_aggregator = Inr st' \<and>
      \<not> complete_infer st' \<and> ori_test_probs st' = [] \<and> ori_test_labels st' = []"
    using update_tests_completion[OF demo_update_validation poss3] val fresh demo_update_validation
    by simp
  from s1 demo_poss sp full s2 part s3 val show ?thesis by (intro conjI)
qed

text \<open>
  Claim C7. On completion with no \<open>proj_inds\<close> from preprocessing, the projection is
  \<open>0 .. count - 1\<close> and the buffers appended to the output lists are the accumulated
  probability and label buffers themselves. Both buffers hold one entry per point of
  the cloud, as allocated at lines 399-403.
\<close>

theorem identity_projection:
  assumes ok: "update_tests m smp inputs results st = Inr st'"
    and test: "split smp = ''test''"
    and poss: "list_get (possibilities smp) (int (cloud_id smp)) = Inr p"
    and full: "covered_count p = length p"
    and none: "proj_inds m (int (cloud_id smp)) (split smp) = None"
    and P: "list_get (test_probs st') (int (cloud_id smp)) = Inr P"
    and L: "list_get (test_labels st') (int (cloud_id smp)) = Inr L"
    and same: "length L = length P"
  shows "ori_test_probs st' = ori_test_probs st @ [P] \<and>
         ori_test_labels st' = ori_test_labels st @ [L] \<and>
         complete_infer st'"
proof -
  have c: "split smp = ''test'' \<and> covered_count p = length p" using test full by simp
  from update_tests_complete_branch[OF ok poss c] P L none
  obtain op ol where
    b3: "np_take P (map int [0..<length P]) = Inr op"
    and b4: "np_take L (map int [0..<length P]) = Inr ol"
    and b5: "ori_test_probs st' = ori_test_probs st @ [op]"
    and b6: "ori_test_labels st' = ori_test_labels st @ [ol]"
    and b7: "complete_infer st'"
    by auto
  have "op = P" using b3 np_take_prefix[of "length P" P] by simp
  moreover have "ol = L" using b4 np_take_prefix[of "length P" L] same by simp
  ultimately show ?thesis using b5 b6 b7 by simp
qed

theorem identity_projection_witness:
  "update_tests demo_model demo_spatial [1, 0, 1] [[0.2, 0.8], [0.9, 0.1], [0.3, 0.7]] fresh_aggregator =
     Inr \<lparr> curr_cloud_id = 0, pbar_update = 3,
           test_probs = [[[0.2, 0.8], [0.9, 0.1], [0.3, 0.7]]], test_labels = [[1, 0, 1]],
           ori_test_probs = [[[0.2, 0.8], [0.9, 0.1], [0.3, 0.7]]], ori_test_labels = [[1, 0, 1]],
           complete_infer = True \<rparr> \<and>
   split demo_spatial = ''test'' \<and>
   list_get (possibilities demo_spatial) (int (cloud_id demo_spatial)) = Inr [0.7, 0.9, 0.6] \<and>
   covered_count [0.7, 0.9, 0.6] = length [0.7, 0.9, 0.6 :: real] \<and>
   proj_inds demo_model (int (cloud_id demo_spatial)) (split demo_spatial) = None \<and>
   length [1, 0, 1 :: int] = length [[0.2, 0.8], [0.9, 0.1], [0.3, 0.7 :: real]] \<and>
   ori_test_probs \<lparr> curr_cloud_id = 0, pbar_update = 3,
           test_probs = [[[0.2, 0.8], [0.9, 0.1], [0.3, 0.7]]], test_labels = [[1, 0, 1]],
           ori_test_probs = [[[0.2, 0.8], [0.9, 0.1], [0.3, 0.7]]], ori_test_labels = [[1, 0, 1]],
           complete_infer = True \<rparr>
     = ori_test_probs fresh_aggregator @ [[[0.2, 0.8], [0.9, 0.1], [0.3, 0.7]]] \<and>
   ori_test_labels \<lparr> curr_cloud_id = 0, pbar_update = 3,
           test_probs = [[[0.2, 0.8], [0.9, 0.1], [0.3, 0.7]]], test_labels = [[1, 0, 1]],
           ori_test_probs = [[[0.2, 0.8], [0.9, 0.1], [0.3, 0.7]]], ori_test_labels = [[1, 0, 1]],
           complete_infer = True \<rparr>
     = ori_test_labels fresh_aggregator @ [[1, 0, 1]]"
proof -
  have sp: "split demo_spatial = ''test''" by (simp add: demo_spatial_def)
  have none: "proj_inds demo_model (int (cloud_id demo_spatial)) (split demo_spatial) = None"
    by (simp add: demo_model_def)
  have P: "list_get (test_probs \<lparr> curr_cloud_id = 0, pbar_update = 3,
           test_probs = [[[0.2, 0.8], [0.9, 0.1], [0.3, 0.7]]], test_labels = [[1, 0, 1]],
           ori_test_probs = [[[0.2, 0.8], [0.9, 0.1], [0.3, 0.7]]], ori_test_labels = [[1, 0, 1]],
           complete_infer = True \<rparr>) (int (cloud_id demo_spatial))
        = Inr [[0.2, 0.8], [0.9, 0.1], [0.3, 0.7]]"
    by (simp add: list_get_def demo_spatial_def)
  have L: "list_get (test_labels \<lparr> curr_cloud_id = 0, pbar_update = 3,
           test_probs = [[[0.2, 0.8], [0.9, 0.1], [0.3, 0.7]]], test_labels = [[1, 0, 1]],
           ori_test_probs = [[[0.2, 0.8], [0.9, 0.1], [0.3, 0.7]]], ori_test_labels = [[1, 0, 1]],
           complete_infer = True \<rparr>) (int (cloud_id demo_spatial))
        = Inr [1, 0, 1]"
    by (simp add: list_get_def demo_spatial_def)
  have same: "length [1, 0, 1 :: int] = length [[0.2, 0.8], [0.9, 0.1], [0.3, 0.7 :: real]]" by simp
  from identity_projection[OF demo_update sp demo_poss demo_covered none P L same]
  show ?thesis using demo_update sp demo_poss demo_covered none same by blast
qed

lemma complete_cloud_buffers:
  assumes "complete_cloud m smp st = Inr st'"
  shows "test_probs st' = test_probs st" "test_labels st' = test_labels st"
    "curr_cloud_id st' = curr_cloud_id st"
  using complete_cloud_Inr[OF assms] by auto

lemma update_tests_switch_late:
  assumes switch: "curr_cloud_id st \<noteq> int (cloud_id smp)"
    and poss: "list_get (possibilities smp) (int (cloud_id smp)) = Inr p"
    and late: "length (test_probs st) < cloud_id smp"
  shows "update_tests m smp inputs results st = Inl IndexError"
  using late
  by (simp add: update_tests_def start_cloud_switch[OF switch poss] poss bind_result_simps
      Let_def list_get_nat)

lemma update_tests_switch_eval:
  assumes switch: "curr_cloud_id st \<noteq> int (cloud_id smp)"
    and poss: "list_get (possibilities smp) (int (cloud_id smp)) = Inr p"
    and lens: "length (test_labels st) = length (test_probs st)"
    and le: "cloud_id smp \<le> length (test_probs st)"
  shows "update_tests m smp inputs results st =
     (if split smp = ''test'' \<and> covered_count p = length p
      then complete_cloud m smp
         (st\<lparr>curr_cloud_id := int (cloud_id smp), pbar_update := covered_count p,
             test_probs := (test_probs st @ [replicate (length p) (replicate (num_classes m) 0)])
               [cloud_id smp := fst (update_probs m inputs results
                  ((test_probs st @ [replicate (length p) (replicate (num_classes m) 0)]) ! cloud_id smp)
                  ((test_labels st @ [replicate (length p) 0]) ! cloud_id smp))],
             test_labels := (test_labels st @ [replicate (length p) 0])
               [cloud_id smp := snd (update_probs m inputs results
                  ((test_probs st @ [replicate (length p) (replicate (num_classes m) 0)]) ! cloud_id smp)
                  ((test_labels st @ [replicate (length p) 0]) ! cloud_id smp))],
             complete_infer := False\<rparr>)
      else Inr
         (st\<lparr>curr_cloud_id := int (cloud_id smp), pbar_update := covered_count p,
             test_probs := (test_probs st @ [replicate (length p) (replicate (num_classes m) 0)])
               [cloud_id smp := fst (update_probs m inputs results
                  ((test_probs st @ [replicate (length p) (replicate (num_classes m) 0)]) ! cloud_id smp)
                  ((test_labels st @ [replicate (length p) 0]) ! cloud_id smp))],
             test_labels := (test_labels st @ [replicate (length p) 0])
               [cloud_id smp := snd (update_probs m inputs results
                  ((test_probs st @ [replicate (length p) (replicate (num_classes m) 0)]) ! cloud_id smp)
                  ((test_labels st @ [replicate (length p) 0]) ! cloud_id smp))],
             complete_infer := False\<rparr>))"
proof -
  let ?Z = "replicate (length p) (replicate (num_classes m) (0::real))"
  let ?ZL = "replicate (length p) (0::int)"
  let ?st1 = "st\<lparr>curr_cloud_id := int (cloud_id smp), pbar_update := 0,
              test_probs := test_probs st @ [?Z], test_labels := test_labels st @ [?ZL],
              complete_infer := False\<rparr>"
  have a1: "start_cloud m smp st = Inr ?st1" by (rule start_cloud_switch[OF switch poss])
  have lt: "cloud_id smp < length (test_probs st @ [?Z])"
    "cloud_id smp < length (test_labels st @ [?ZL])" using le lens by simp_all
  have a3: "list_get (test_probs ?st1) (curr_cloud_id ?st1) = Inr ((test_probs st @ [?Z]) ! cloud_id smp)"
    using lt by (simp add: list_get_nat)
  have a4: "list_get (test_labels ?st1) (curr_cloud_id ?st1) = Inr ((test_labels st @ [?ZL]) ! cloud_id smp)"
    using lt by (simp add: list_get_nat)
  have a5: "list_set (test_probs ?st1) (curr_cloud_id ?st1)
       (fst (update_probs m inputs results ((test_probs st @ [?Z]) ! cloud_id smp)
            ((test_labels st @ [?ZL]) ! cloud_id smp)))
     = Inr ((test_probs st @ [?Z])[cloud_id smp := fst (update_probs m inputs results
            ((test_probs st @ [?Z]) ! cloud_id smp) ((test_labels st @ [?ZL]) ! cloud_id smp))])"
    using lt by (simp add: list_set_nat)
  have a6: "list_set (test_labels ?st1) (curr_cloud_id ?st1)
       (snd (update_probs m inputs results ((test_probs st @ [?Z]) ! cloud_id smp)
            ((test_labels st @ [?ZL]) ! cloud_id smp)))
     = Inr ((test_labels st @ [?ZL])[cloud_id smp := snd (update_probs m inputs results
            ((test_probs st @ [?Z]) ! cloud_id smp) ((test_labels st @ [?ZL]) ! cloud_id smp))])"
    using lt by (simp add: list_set_nat)
  let ?new = "update_probs m inputs results ((test_probs st @ [?Z]) ! cloud_id smp)
            ((test_labels st @ [?ZL]) ! cloud_id smp)"
  have st3: "?st1\<lparr>pbar_update := covered_count p,
               test_probs := (test_probs st @ [?Z])[cloud_id smp := fst ?new],
               test_labels := (test_labels st @ [?ZL])[cloud_id smp := snd ?new]\<rparr>
        = st\<lparr>curr_cloud_id := int (cloud_id smp), pbar_update := covered_count p,
             test_probs := (test_probs st @ [?Z])[cloud_id smp := fst ?new],
             test_labels := (test_labels st @ [?ZL])[cloud_id smp := snd ?new],
             complete_infer := False\<rparr>"
    by simp
  show ?thesis
    by (simp only: update_tests_eval[OF a1 poss a3 a4 a5 a6] st3)
qed

lemma update_tests_switch_fields:
  assumes switch: "curr_cloud_id st \<noteq> int (cloud_id smp)"
    and poss: "list_get (possibilities smp) (int (cloud_id smp)) = Inr p"
    and lens: "length (test_labels st) = length (test_probs st)"
    and le: "cloud_id smp \<le> length (test_probs st)"
    and ok: "update_tests m smp inputs results st = Inr st'"
  shows "test_probs st' = (test_probs st @ [replicate (length p) (replicate (num_classes m) 0)])
               [cloud_id smp := fst (update_probs m inputs results
                  ((test_probs st @ [replicate (length p) (replicate (num_classes m) 0)]) ! cloud_id smp)
                  ((test_labels st @ [replicate (length p) 0]) ! cloud_id smp))]"
    and "test_labels st' = (test_labels st @ [replicate (length p) 0])
               [cloud_id smp := snd (update_probs m inputs results
                  ((test_probs st @ [replicate (length p) (replicate (num_classes m) 0)]) ! cloud_id smp)
                  ((test_labels st @ [replicate (length p) 0]) ! cloud_id smp))]"
    and "curr_cloud_id st' = int (cloud_id smp)"
proof -
  let ?Z = "replicate (length p) (replicate (num_classes m) (0::real))"
  let ?ZL = "replicate (length p) (0::int)"
  let ?new = "update_probs m inputs results ((test_probs st @ [?Z]) ! cloud_id smp)
            ((test_labels st @ [?ZL]) ! cloud_id smp)"
  let ?T = "st\<lparr>curr_cloud_id := int (cloud_id smp), pbar_update := covered_count p,
             test_probs := (test_probs st @ [?Z])[cloud_id smp := fst ?new],
             test_labels := (test_labels st @ [?ZL])[cloud_id smp := snd ?new],
             complete_infer := False\<rparr>"
  note ev = update_tests_switch_eval[OF switch poss lens le, of m inputs results]
  have all: "test_probs st' = test_probs ?T \<and> test_labels st' = test_labels ?T \<and>
        curr_cloud_id st' = curr_cloud_id ?T"
  proof (cases "split smp = ''test'' \<and> covered_count p = length p")
    case True
    from ok ev have "complete_cloud m smp ?T = Inr st'" by (simp only: if_P[OF True])
    from complete_cloud_buffers[OF this] show ?thesis by blast
  next
    case False
    from ok ev have "Inr ?T = (Inr st' :: error + aggregator)" by (simp only: if_not_P[OF False])
    then have "st' = ?T" by simp
    then show ?thesis by (simp only:)
  qed
  from all show "test_probs st' = (test_probs st @ [?Z])[cloud_id smp := fst ?new]" by simp
  from all show "test_labels st' = (test_labels st @ [?ZL])[cloud_id smp := snd ?new]" by simp
  from all show "curr_cloud_id st' = int (cloud_id smp)" by simp
qed

section \<open>Buffer addressing by cloud id\<close>

lemma demo_out_of_order:
  "update_tests demo_model (demo_spatial\<lparr>cloud_id := 1, possibilities := [[0.7], [0.2, 0.9]]\<rparr>)
       [1, 0] [[0.2, 0.8], [0.9, 0.1]] fresh_aggregator = Inl IndexError"
  by (simp add: update_tests_def start_cloud_def demo_model_def demo_spatial_def
      fresh_aggregator_def list_get_def list_set_def bind_result_def Let_def
      covered_count_def end_threshold_def)

text \<open>
  Claim C10. \<open>update_tests\<close> appends the buffers of a new cloud at the end of
  \<open>test_probs\<close> and \<open>test_labels\<close> and then addresses them with the incoming cloud id.
  With \<open>k\<close> buffers allocated so far (one per change of cloud id since the reset):
  when the new id is \<open>k\<close>, the fusion rule receives the zeroed buffers just appended,
  its results are stored there, and the current id again equals the number of buffers
  minus one; when the new id is below \<open>k\<close>, the fusion rule receives and overwrites the
  older buffer at that position while the appended buffers stay zero; when the new id
  is above \<open>k\<close>, indexing raises IndexError. In the first two cases the call returns
  whenever completion is not triggered.
\<close>

theorem update_tests_buffer_addressing:
  fixes m :: "('i, 'r) seg_model" and p :: "real list"
  defines "zero_probs \<equiv> replicate (length p) (replicate (num_classes m) (0::real))"
  defines "zero_labels \<equiv> replicate (length p) (0::int)"
  assumes switch: "curr_cloud_id st \<noteq> int (cloud_id smp)"
    and poss: "list_get (possibilities smp) (int (cloud_id smp)) = Inr p"
    and lens: "length (test_labels st) = length (test_probs st)"
  shows "(cloud_id smp = length (test_probs st) \<longrightarrow>
          (\<forall>st'. update_tests m smp inputs results st = Inr st' \<longrightarrow>
             test_probs st' = test_probs st @ [fst (update_probs m inputs results zero_probs zero_labels)] \<and>
             test_labels st' = test_labels st @ [snd (update_probs m inputs results zero_probs zero_labels)] \<and>
             curr_cloud_id st' = int (length (test_probs st')) - 1)) \<and>
         (cloud_id smp < length (test_probs st) \<longrightarrow>
          (\<forall>st'. update_tests m smp inputs results st = Inr st' \<longrightarrow>
             test_probs st' = (test_probs st)[cloud_id smp :=
                 fst (update_probs m inputs results (test_probs st ! cloud_id smp)
                        (test_labels st ! cloud_id smp))] @ [zero_probs] \<and>
             test_labels st' = (test_labels st)[cloud_id smp :=
                 snd (update_probs m inputs results (test_probs st ! cloud_id smp)
                        (test_labels st ! cloud_id smp))] @ [zero_labels] \<and>
             curr_cloud_id st' \<noteq> int (length (test_probs st')) - 1)) \<and>
         (length (test_probs st) < cloud_id smp \<longrightarrow>
            update_tests m smp inputs results st = Inl IndexError) \<and>
         (cloud_id smp \<le> length (test_probs st) \<and>
            \<not> (split smp = ''test'' \<and> covered_count p = length p) \<longrightarrow>
            (\<exists>st'. update_tests m smp inputs results st = Inr st'))"
proof (intro conjI impI allI)
  fix st'
  assume eq: "cloud_id smp = length (test_probs st)"
    and ok: "update_tests m smp inputs results st = Inr st'"
  have le: "cloud_id smp \<le> length (test_probs st)" using eq by simp
  note f = update_tests_switch_fields[OF switch poss lens le ok]
  have eq2: "cloud_id smp = length (test_labels st)" using eq lens by simp
  show "test_probs st' = test_probs st @ [fst (update_probs m inputs results zero_probs zero_labels)]"
    unfolding f(1) zero_probs_def zero_labels_def
    by (simp only: eq nth_append_length list_update_length) (simp only: eq2 nth_append_length eq[symmetric])
  show "test_labels st' = test_labels st @ [snd (update_probs m inputs results zero_probs zero_labels)]"
    unfolding f(2) zero_probs_def zero_labels_def
    by (simp only: eq2 nth_append_length list_update_length) (simp only: eq nth_append_length eq2[symmetric])
  show "curr_cloud_id st' = int (length (test_probs st')) - 1"
    unfolding f(3) f(1) using eq by simp
next
  fix st'
  assume lt: "cloud_id smp < length (test_probs st)"
    and ok: "update_tests m smp inputs results st = Inr st'"
  have le: "cloud_id smp \<le> length (test_probs st)" using lt by simp
  have lt2: "cloud_id smp < length (test_labels st)" using lt lens by simp
  note f = update_tests_switch_fields[OF switch poss lens le ok]
  show "test_probs st' = (test_probs st)[cloud_id smp :=
                 fst (update_probs m inputs results (test_probs st ! cloud_id smp)
                        (test_labels st ! cloud_id smp))] @ [zero_probs]"
    unfolding f(1) zero_probs_def using lt lt2 by (simp add: nth_append list_update_append1)
  show "test_labels st' = (test_labels st)[cloud_id smp :=
                 snd (update_probs m inputs results (test_probs st ! cloud_id smp)
                        (test_labels st ! cloud_id smp))] @ [zero_labels]"
    unfolding f(2) zero_labels_def using lt lt2 by (simp add: nth_append list_update_append1)
  show "curr_cloud_id st' \<noteq> int (length (test_probs st')) - 1"
    unfolding f(3) f(1) using lt by simp
next
  assume "length (test_probs st) < cloud_id smp"
  then show "update_tests m smp inputs results st = Inl IndexError"
    by (rule update_tests_switch_late[OF switch poss])
next
  assume a: "cloud_id smp \<le> length (test_probs st) \<and>
            \<not> (split smp = ''test'' \<and> covered_count p = length p)"
  then have le: "cloud_id smp \<le> length (test_probs st)"
    and c: "\<not> (split smp = ''test'' \<and> covered_count p = length p)" by simp_all
  show "\<exists>st'. update_tests m smp inputs results st = Inr st'"
    unfolding update_tests_switch_eval[OF switch poss lens le] by (simp only: if_not_P[OF c]) blast
qed

theorem update_tests_buffer_addressing_witness:
  "curr_cloud_id fresh_aggregator \<noteq> int (cloud_id demo_spatial) \<and>
   list_get (possibilities demo_spatial) (int (cloud_id demo_spatial)) = Inr [0.7, 0.9, 0.6] \<and>
   length (test_labels fresh_aggregator) = length (test_probs fresh_aggregator) \<and>
   cloud_id demo_spatial = length (test_probs fresh_aggregator) \<and>
   (\<exists>st'. update_tests demo_model demo_spatial [1, 0, 1] [[0.2, 0.8], [0.9, 0.1], [0.3, 0.7]]
            fresh_aggregator = Inr st' \<and>
      test_probs st' = [[[0.2, 0.8], [0.9, 0.1], [0.3, 0.7]]] \<and>
      test_labels st' = [[1, 0, 1]] \<and>
      curr_cloud_id st' = int (length (test_probs st')) - 1)"
proof -
  have h1: "curr_cloud_id fresh_aggregator \<noteq> int (cloud_id demo_spatial)"
    by (simp add: fresh_aggregator_def demo_spatial_def)
  have h3: "length (test_labels fresh_aggregator) = length (test_probs fresh_aggregator)"
    by (simp add: fresh_aggregator_def)
  have h4: "cloud_id demo_spatial = length (test_probs fresh_aggregator)"
    by (simp add: fresh_aggregator_def demo_spatial_def)
  obtain st' where ok: "update_tests demo_model demo_spatial [1, 0, 1]
            [[0.2, 0.8], [0.9, 0.1], [0.3, 0.7]] fresh_aggregator = Inr st'"
    using demo_update by blast
  have up: "update_probs demo_model i r x y = (r, i)" for i r x y
    by (simp add: demo_model_def)
  have tp: "test_probs fresh_aggregator = []" "test_labels fresh_aggregator = []"
    by (simp_all add: fresh_aggregator_def)
  from update_tests_buffer_addressing[OF h1 demo_poss h3,
      of demo_model "[1, 0, 1]" "[[0.2, 0.8], [0.9, 0.1], [0.3, 0.7]]"] h4 ok
  have "test_probs st' = [[[0.2, 0.8], [0.9, 0.1], [0.3, 0.7]]] \<and>
      test_labels st' = [[1, 0, 1]] \<and>
      curr_cloud_id st' = int (length (test_probs st')) - 1"
    by (simp add: up tp)
  then show ?thesis using h1 demo_poss h3 h4 ok by blast
qed

section \<open>Inference returns early\<close>

lemma seq_Return: "seq (Return r s) g = Return r s"
  by (simp add: seq_def)

lemma infer_body_returns:
  "infer_body forward observe st inputs = Return (Raw (forward inputs)) st"
  by (simp add: infer_body_def Let_def seq_Return)

lemma run_inference_empty: "run_inference forward observe st [] = Raise IndexError"
  by (simp add: run_inference_def seq_def finalize_inference_def reset_tests_def)

text \<open>
  Claim C9. Whatever the loader yields after its first batch, \<open>run_inference\<close> returns
  the raw model output of the first batch from inside the loop. The result does not
  depend on \<open>update_tests\<close> (any other observer gives the same), on the remaining
  batches, or on the code after the loop, and the aggregation buffers are still empty
  when it returns.
\<close>

theorem run_inference_returns_first_output:
  "run_inference forward observe st (inputs # rest)
     = Return (Raw (forward inputs)) (reset_tests st) \<and>
   run_inference forward observe st (inputs # rest)
     = run_inference forward observe' st [inputs] \<and>
   ori_test_probs (reset_tests st) = [] \<and> ori_test_labels (reset_tests st) = [] \<and>
   test_probs (reset_tests st) = [] \<and> test_labels (reset_tests st) = []"
  by (simp add: run_inference_def infer_body_returns seq_Return reset_tests_def)

section \<open>Degenerate batches\<close>

lemma train_batch_skip:
  assumes "snd (get_loss ops (weights st) inputs) \<noteq> []"
    and "last (snd (get_loss ops (weights st) inputs)) = 0"
  shows "train_batch ops cfg st inputs = Inr (st\<lparr>trace := trace st @ [ZeroGrad, Forward, GetLoss]\<rparr>)"
  using assms by (simp add: train_batch_def Let_def)

lemma valid_batch_skip:
  assumes "snd (get_loss ops (weights st) inputs) \<noteq> []"
    and "last (snd (get_loss ops (weights st) inputs)) = 0"
  shows "valid_batch ops cfg step st inputs = Inr (st\<lparr>trace := trace st @ [Forward, GetLoss]\<rparr>)"
  using assms by (simp add: valid_batch_def Let_def)


text \<open>
  Claim C6. When the prediction score tensor of a batch has a last dimension of size
  zero, the training iteration stops after the forward pass and the loss computation:
  the trace gains only \<open>ZeroGrad, Forward, GetLoss\<close> (no backward pass, no clipping,
  no optimizer step, no metric update, no loss appended), the weights, the loss lists
  and the metrics are unchanged, nothing is raised, and the loop goes on with the
  remaining batches. The validation iteration skips in the same way.
\<close>

theorem degenerate_batch_skipped:
  assumes size: "snd (get_loss ops (weights st) inputs) \<noteq> []"
    and empty: "last (snd (get_loss ops (weights st) inputs)) = 0"
  shows "(\<exists>st'. train_batch ops cfg st inputs = Inr st' \<and>
            trace st' = trace st @ [ZeroGrad, Forward, GetLoss] \<and>
            weights st' = weights st \<and> losses st' = losses st \<and>
            metric_train st' = metric_train st \<and>
            train_loop ops cfg st (inputs # rest)
              = train_loop ops cfg (st'\<lparr>progress_n := Suc (progress_n st)\<rparr>) rest) \<and>
         (\<exists>st'. valid_batch ops cfg step st inputs = Inr st' \<and>
            trace st' = trace st @ [Forward, GetLoss] \<and>
            weights st' = weights st \<and> valid_losses st' = valid_losses st \<and>
            metric_val st' = metric_val st \<and>
            valid_loop ops cfg step st (inputs # rest) = valid_loop ops cfg (Suc step) st' rest)"
proof (intro conjI)
  let ?st' = "st\<lparr>trace := trace st @ [ZeroGrad, Forward, GetLoss]\<rparr>"
  have t: "train_batch ops cfg st inputs = Inr ?st'" by (rule train_batch_skip[OF size empty])
  have "train_loop ops cfg st (inputs # rest)
              = train_loop ops cfg (?st'\<lparr>progress_n := Suc (progress_n st)\<rparr>) rest"
    by (simp add: t bind_result_simps)
  with t show "\<exists>st'. train_batch ops cfg st inputs = Inr st' \<and>
            trace st' = trace st @ [ZeroGrad, Forward, GetLoss] \<and>
            weights st' = weights st \<and> losses st' = losses st \<and>
            metric_train st' = metric_train st \<and>
            train_loop ops cfg st (inputs # rest)
              = train_loop ops cfg (st'\<lparr>progress_n := Suc (progress_n st)\<rparr>) rest"
    by (intro exI[of _ ?st']) simp
next
  let ?st' = "st\<lparr>trace := trace st @ [Forward, GetLoss]\<rparr>"
  have v: "valid_batch ops cfg step st inputs = Inr ?st'" by (rule valid_batch_skip[OF size empty])
  have "valid_loop ops cfg step st (inputs # rest) = valid_loop ops cfg (Suc step) ?st' rest"
    by (simp add: v bind_result_simps)
  with v show "\<exists>st'. valid_batch ops cfg step st inputs = Inr st' \<and>
            trace st' = trace st @ [Forward, GetLoss] \<and>
            weights st' = weights st \<and> valid_losses st' = valid_losses st \<and>
            metric_val st' = metric_val st \<and>
            valid_loop ops cfg step st (inputs # rest) = valid_loop ops cfg (Suc step) st' rest"
    by (intro exI[of _ ?st']) simp
qed

theorem degenerate_batch_skipped_witness:
  "snd (get_loss demo_ops (weights demo_train_state) 0) \<noteq> [] \<and>
   last (snd (get_loss demo_ops (weights demo_train_state) 0)) = 0 \<and>
   (\<exists>st'. train_batch demo_ops demo_cfg demo_train_state 0 = Inr st' \<and>
            trace st' = trace demo_train_state @ [ZeroGrad, Forward, GetLoss] \<and>
            weights st' = weights demo_train_state \<and> losses st' = losses demo_train_state \<and>
            metric_train st' = metric_train demo_train_state \<and>
            train_loop demo_ops demo_cfg demo_train_state (0 # [3])
              = train_loop demo_ops demo_cfg
                  (st'\<lparr>progress_n := Suc (progress_n demo_train_state)\<rparr>) [3]) \<and>
   (\<exists>st'. valid_batch demo_ops demo_cfg 0 demo_train_state 0 = Inr st' \<and>
            trace st' = trace demo_train_state @ [Forward, GetLoss] \<and>
            weights st' = weights demo_train_state \<and>
            valid_losses st' = valid_losses demo_train_state \<and>
            metric_val st' = metric_val demo_train_state \<and>
            valid_loop demo_ops demo_cfg 0 demo_train_state (0 # [3])
              = valid_loop demo_ops demo_cfg (Suc 0) st' [3])"
proof -
  have h1: "snd (get_loss demo_ops (weights demo_train_state) 0) \<noteq> []"
    by (simp add: demo_ops_def)
  have h2: "last (snd (get_loss demo_ops (weights demo_train_state) 0)) = 0"
    by (simp add: demo_ops_def)
  from degenerate_batch_skipped[OF h1 h2, of demo_cfg "[3]" 0] h1 h2
  show ?thesis by blast
qed

section \<open>Distributed training with a sampler already set\<close>








end
